theory Spec2Isabelle
  imports Complex_Main "HOL-Library.AList"
begin

section \<open>Python values\<close>

text \<open>
  Exceptions of the script. Every constructor is a subclass of Python's \<open>Exception\<close>, so
  \<open>except Exception\<close> and a bare \<open>except:\<close> catch all of them; \<open>FileNotFoundError\<close> is
  kept apart because \<open>main\<close> has a handler of its own for it.
\<close>

datatype exn = FileNotFoundError | AttributeError | Exception string

text \<open>
  The values \<open>json.loads\<close> produces: \<open>None\<close>, \<open>bool\<close>, \<open>int\<close>, \<open>float\<close> (finite, or
  one of NaN / Infinity / -Infinity, which \<open>json.loads\<close> accepts), \<open>str\<close>, \<open>list\<close> and
  \<open>dict\<close>. A dict is an association list in insertion order with pairwise distinct keys.
\<close>

datatype json =
    JNull
  | JBool bool
  | JInt int
  | JFloat rat
  | JNonFinite
  | JStr string
  | JList "json list"
  | JDict "(string \<times> json) list"

text \<open>Truth value of a Python object, as \<open>if x:\<close> tests it.\<close>

fun truthy :: "json \<Rightarrow> bool" where
  "truthy JNull = False"
| "truthy (JBool b) = b"
| "truthy (JInt i) = (i \<noteq> 0)"
| "truthy (JFloat r) = (r \<noteq> 0)"
| "truthy JNonFinite = True"
| "truthy (JStr s) = (s \<noteq> [])"
| "truthy (JList xs) = (xs \<noteq> [])"
| "truthy (JDict kvs) = (kvs \<noteq> [])"

text \<open>
  \<open>x.get(key)\<close>: on a dict the value, or \<open>None\<close> for a missing key; every other JSON
  value has no attribute \<open>get\<close>.
\<close>

fun py_get :: "json \<Rightarrow> string \<Rightarrow> exn + json" where
  "py_get (JDict kvs) k = (case map_of kvs k of None \<Rightarrow> Inr JNull | Some v \<Rightarrow> Inr v)"
| "py_get _ k = Inl AttributeError"

text \<open>\<open>d[k] = v\<close> on an insertion-ordered dict: an existing key keeps its position.\<close>

fun py_setitem :: "('k \<times> 'v) list \<Rightarrow> 'k \<Rightarrow> 'v \<Rightarrow> ('k \<times> 'v) list" where
  "py_setitem [] k v = [(k, v)]"
| "py_setitem ((k', v') # d) k v =
     (if k' = k then (k, v) # d else (k', v') # py_setitem d k v)"

subsection \<open>Strings\<close>

text \<open>
  A Python \<open>str\<close> is a sequence of code points; a \<open>char\<close> stands for a code point below
  256. \<open>py_isspace\<close> is \<open>str.isspace\<close> on one such code point, \<open>py_lower\<close> is
  \<open>str.lower\<close> (ASCII and Latin-1 capitals).
\<close>

definition py_isspace :: "char \<Rightarrow> bool" where
  "py_isspace c =
     (let n = (of_char c :: nat)
      in (9 \<le> n \<and> n \<le> 13) \<or> (28 \<le> n \<and> n \<le> 32) \<or> n = 133 \<or> n = 160)"

definition strip_with :: "(char \<Rightarrow> bool) \<Rightarrow> string \<Rightarrow> string" where
  "strip_with P s = rev (dropWhile P (rev (dropWhile P s)))"

definition py_strip :: "string \<Rightarrow> string" where
  "py_strip s = strip_with py_isspace s"

definition py_strip_chars :: "string \<Rightarrow> string \<Rightarrow> string" where
  "py_strip_chars s cs = strip_with (\<lambda>c. c \<in> set cs) s"

definition lower_char :: "char \<Rightarrow> char" where
  "lower_char c =
     (let n = (of_char c :: nat)
      in if (65 \<le> n \<and> n \<le> 90) \<or> (192 \<le> n \<and> n \<le> 222 \<and> n \<noteq> 215)
         then char_of (n + 32) else c)"

definition py_lower :: "string \<Rightarrow> string" where
  "py_lower s = map lower_char s"

definition startswith :: "string \<Rightarrow> string \<Rightarrow> bool" where
  "startswith s p = (take (length p) s = p)"

section \<open>Data model\<close>

text \<open>The dict built for one table row (lines 86-92).\<close>

record field =
  name :: string
  data_element :: string
  type :: string
  length_f :: string
  decimals :: string

text \<open>
  The dict \<open>table_data\<close> returned by \<open>get_table_info\<close> (lines 55-59); \<open>fields_t\<close> is
  its key \<open>"fields"\<close> and \<open>length_f\<close> above the key \<open>"length"\<close>.
\<close>

record table_info =
  table_name :: string
  description :: string
  fields_t :: "field list"

text \<open>The same dicts as JSON values, keys in the order the source writes them.\<close>

definition field_json :: "field \<Rightarrow> json" where
  "field_json f = JDict
     [(''name'', JStr (name f)),
      (''data_element'', JStr (data_element f)),
      (''type'', JStr (type f)),
      (''length'', JStr (length_f f)),
      (''decimals'', JStr (decimals f))]"

type_synonym document = "(string \<times> json) list"

section \<open>Effects\<close>

datatype level = INFO | ERROR

text \<open>
  The log messages of the script, one constructor per f-string, with the values the
  f-string interpolates.
\<close>

datatype msg =
    Error_obteniendo string exn      \<comment> \<open>line 64\<close>
  | Error_extrayendo exn             \<comment> \<open>line 97\<close>
  | Procesando string                \<comment> \<open>line 135\<close>
  | No_se_encontro_info string       \<comment> \<open>line 140\<close>
  | No_tiene_campos string           \<comment> \<open>line 145\<close>
  | Estructura_generada string       \<comment> \<open>line 164\<close>
  | No_genero_campos string          \<comment> \<open>line 171\<close>
  | Error_generando string exn       \<comment> \<open>line 174\<close>
  | Iniciando_analisis               \<comment> \<open>line 180\<close>
  | Iniciando_prueba                 \<comment> \<open>line 184\<close>
  | Obteniendo_prueba string         \<comment> \<open>line 189\<close>
  | Prueba_completada string         \<comment> \<open>line 214\<close>
  | Error_en_prueba exn              \<comment> \<open>line 216\<close>
  | No_se_pudo_obtener               \<comment> \<open>line 219\<close>
  | Fin_de_prueba                    \<comment> \<open>line 222\<close>
  | Iniciando_proceso                \<comment> \<open>line 225\<close>
  | Archivo_vacio                    \<comment> \<open>line 236\<close>
  | Se_encontraron nat               \<comment> \<open>line 239\<close>
  | Estructuras_guardadas string     \<comment> \<open>line 249\<close>
  | Fin_del_proceso                  \<comment> \<open>line 250\<close>
  | No_se_encontro_archivo           \<comment> \<open>line 253\<close>
  | Error_en_proceso exn             \<comment> \<open>line 255\<close>
  | Proceso_finalizado               \<comment> \<open>line 257\<close>

text \<open>
  What a run does to the outside world, in order: a log record, an HTTP GET of a URL, a
  call of the generative transformer, a JSON document written to a path, the input file
  opened and read. A call is recorded with the exception it raised, if any, a write with
  its outcome.
\<close>

text \<open>
  How \<open>with open(path, "w", ...) as f: json.dump(document, f, ...)\<close> ends: the document
  is written; or \<open>open\<close> raises, and the file is as it was; or \<open>open\<close> has emptied the
  file and \<open>json.dump\<close> (or closing the file) raises, and the file holds no document.
\<close>

datatype outcome = Written | Open_failed exn | Dump_failed exn

fun outcome_exn :: "outcome \<Rightarrow> exn option" where
  "outcome_exn Written = None"
| "outcome_exn (Open_failed e) = Some e"
| "outcome_exn (Dump_failed e) = Some e"

datatype event =
    Log level msg
  | HttpGet string "exn option"
  | Generate table_info "exn option"
  | WriteJson string document outcome
  | ReadLines string "exn option"

type_synonym trace = "event list"

text \<open>
  The collaborators the script calls. \<open>http_get\<close> is \<open>session.get\<close>,
  \<open>raise_for_status\<close> and the \<open>BeautifulSoup\<close> constructor together; \<open>find\<close>,
  \<open>find_all\<close> and \<open>text_of\<close> are the methods \<open>find\<close> and \<open>find_all\<close> and the attribute
  \<open>text\<close> of the parsed document and its elements; \<open>generator\<close> is the DSPy
  predictor, returning the \<open>structure\<close> attribute of its prediction (\<open>None\<close> when that
  attribute is missing or not text); \<open>json_loads\<close> is \<open>json.loads\<close> (\<open>None\<close> when it
  raises); \<open>write_json\<close> is the \<open>with open(path, "w")\<close> block around \<open>json.dump\<close>; \<open>read_lines\<close> is
  \<open>open(path, "r")\<close> with the iteration over its lines. The calls that reach outside the
  process answer as a function of everything that happened before, so the same request
  may be answered differently at different times.
\<close>

record 'tag env =
  http_get :: "trace \<Rightarrow> string \<Rightarrow> exn + 'tag"
  find :: "'tag \<Rightarrow> string \<Rightarrow> exn + 'tag option"
  find_all :: "'tag \<Rightarrow> string list \<Rightarrow> exn + 'tag list"
  text_of :: "'tag \<Rightarrow> exn + string"
  generator :: "trace \<Rightarrow> table_info \<Rightarrow> exn + string option"
  json_loads :: "string \<Rightarrow> json option"
  write_json :: "trace \<Rightarrow> string \<Rightarrow> document \<Rightarrow> outcome"
  read_lines :: "trace \<Rightarrow> string \<Rightarrow> exn + string list"

definition log :: "level \<Rightarrow> msg \<Rightarrow> trace \<Rightarrow> trace" where
  "log l m t = t @ [Log l m]"

section \<open>SAPTableAnalyzer\<close>

definition BASE_URL :: string where
  "BASE_URL = ''https://leanx.eu/en/sap/table/''"

text \<open>\<open>cols[i].text.strip()\<close>, for an index the caller has checked.\<close>

definition cell :: "'tag env \<Rightarrow> 'tag list \<Rightarrow> nat \<Rightarrow> exn + string" where
  "cell env cols i =
     (case text_of env (cols ! i) of Inl e \<Rightarrow> Inl e | Inr s \<Rightarrow> Inr (py_strip s))"

text \<open>The dict literal of lines 86-92; its values are evaluated in the order written.\<close>

definition make_field :: "'tag env \<Rightarrow> 'tag list \<Rightarrow> exn + field" where
  "make_field env cols =
     (case cell env cols 0 of Inl e \<Rightarrow> Inl e | Inr n \<Rightarrow>
     (case cell env cols 1 of Inl e \<Rightarrow> Inl e | Inr d \<Rightarrow>
     (case cell env cols 3 of Inl e \<Rightarrow> Inl e | Inr ty \<Rightarrow>
     (case (if length cols > 4 then cell env cols 4 else Inr []) of Inl e \<Rightarrow> Inl e | Inr l \<Rightarrow>
     (case (if length cols > 5 then cell env cols 5 else Inr []) of Inl e \<Rightarrow> Inl e | Inr dc \<Rightarrow>
        Inr \<lparr>name = n, data_element = d, type = ty, length_f = l, decimals = dc\<rparr>)))))"

text \<open>
  The body of the \<open>for row in rows\<close> loop (lines 84-93): the field to append, or nothing
  for a row of fewer than 4 cells.
\<close>

definition read_row :: "'tag env \<Rightarrow> 'tag \<Rightarrow> exn + field option" where
  "read_row env row =
     (case find_all env row [''td'', ''th''] of
        Inl e \<Rightarrow> Inl e
      | Inr cols \<Rightarrow>
          if length cols \<ge> 4 then
            (case make_field env cols of Inl e \<Rightarrow> Inl e | Inr f \<Rightarrow> Inr (Some f))
          else Inr None)"

text \<open>
  The loop over the local list \<open>fields\<close> (lines 83-93): the result is the exception that
  ended the loop, if any, and the list as it was then.
\<close>

fun fields_loop :: "'tag env \<Rightarrow> 'tag list \<Rightarrow> field list \<Rightarrow> exn option \<times> field list" where
  "fields_loop env [] fs = (None, fs)"
| "fields_loop env (row # rows) fs =
     (case read_row env row of
        Inl e \<Rightarrow> (Some e, fs)
      | Inr None \<Rightarrow> fields_loop env rows fs
      | Inr (Some f) \<Rightarrow> fields_loop env rows (fs @ [f]))"

text \<open>
  The \<open>try\<close> block of \<open>_get_fields\<close> (lines 78-95): the value returned or the exception
  raised, together with the local list \<open>fields\<close>, which the handler reads.
\<close>

definition get_fields_try :: "'tag env \<Rightarrow> 'tag \<Rightarrow> (exn + field list) \<times> field list" where
  "get_fields_try env soup =
     (case find env soup ''table'' of
        Inl e \<Rightarrow> (Inl e, [])
      | Inr None \<Rightarrow> (Inr [], [])
      | Inr (Some table) \<Rightarrow>
          (case find_all env table [''tr''] of
             Inl e \<Rightarrow> (Inl e, [])
           | Inr trs \<Rightarrow>
               (case fields_loop env (drop 1 trs) [] of
                  (Some e, fs) \<Rightarrow> (Inl e, fs)
                | (None, fs) \<Rightarrow> (Inr fs, fs))))"

text \<open>\<open>_get_fields\<close> (lines 74-98).\<close>

definition get_fields :: "'tag env \<Rightarrow> 'tag \<Rightarrow> trace \<Rightarrow> (exn + field list) \<times> trace" where
  "get_fields env soup t =
     (case get_fields_try env soup of
        (Inr fs, _) \<Rightarrow> (Inr fs, t)
      | (Inl e, fs) \<Rightarrow> (Inr fs, log ERROR (Error_extrayendo e) t))"

text \<open>
  \<open>_get_description\<close> (lines 67-72): \<open>soup.find('h1').text.strip()\<close>, where \<open>.text\<close> on
  \<open>None\<close> raises; the bare \<open>except\<close> turns every exception into the empty string.
\<close>

definition get_description_try :: "'tag env \<Rightarrow> 'tag \<Rightarrow> exn + string" where
  "get_description_try env soup =
     (case find env soup ''h1'' of
        Inl e \<Rightarrow> Inl e
      | Inr None \<Rightarrow> Inl AttributeError
      | Inr (Some h) \<Rightarrow>
          (case text_of env h of Inl e \<Rightarrow> Inl e | Inr s \<Rightarrow> Inr (py_strip s)))"

definition get_description :: "'tag env \<Rightarrow> 'tag \<Rightarrow> exn + string" where
  "get_description env soup =
     (case get_description_try env soup of Inl e \<Rightarrow> Inr '''' | Inr s \<Rightarrow> Inr s)"

text \<open>The URL of line 48.\<close>

definition url_of :: "string \<Rightarrow> string" where
  "url_of n = BASE_URL @ py_lower n @ ''.html''"

text \<open>\<open>get_table_info\<close> (lines 45-65): the \<open>try\<close> block, then the method with its handler.\<close>

definition get_table_info_try ::
  "'tag env \<Rightarrow> string \<Rightarrow> trace \<Rightarrow> (exn + table_info option) \<times> trace" where
  "get_table_info_try env table_name' t =
     (let url = url_of table_name';
          r = http_get env t url;
          t1 = t @ [HttpGet url (case r of Inl e \<Rightarrow> Some e | Inr _ \<Rightarrow> None)]
      in case r of
           Inl e \<Rightarrow> (Inl e, t1)
         | Inr soup \<Rightarrow>
             (case get_description env soup of
                Inl e \<Rightarrow> (Inl e, t1)
              | Inr d \<Rightarrow>
                  (case get_fields env soup t1 of
                     (Inl e, t2) \<Rightarrow> (Inl e, t2)
                   | (Inr fs, t2) \<Rightarrow>
                       (Inr (Some \<lparr>table_name = table_name', description = d, fields_t = fs\<rparr>),
                        t2))))"

definition get_table_info ::
  "'tag env \<Rightarrow> string \<Rightarrow> trace \<Rightarrow> (exn + table_info option) \<times> trace" where
  "get_table_info env table_name' t =
     (case get_table_info_try env table_name' t of
        (Inl e, t1) \<Rightarrow> (Inr None, log ERROR (Error_obteniendo table_name' e) t1)
      | (Inr r, t1) \<Rightarrow> (Inr r, t1))"

section \<open>Generating the structure\<close>

text \<open>The dict built when \<open>json.loads\<close> raises (lines 155-159 and 201-205).\<close>

definition fallback_structure :: "table_info \<Rightarrow> json" where
  "fallback_structure ti = JDict
     [(''name'', JStr (table_name ti)),
      (''description'', JStr (description ti)),
      (''fields'', JList (map field_json (fields_t ti)))]"

text \<open>
  Lines 150-159 of \<open>process_tables\<close>, which lines 195-205 of \<open>main\<close> repeat: the call of
  the predictor, which may raise, and \<open>json.loads(result.structure)\<close> under a bare
  \<open>except\<close>.
\<close>

definition generate_structure :: "'tag env \<Rightarrow> table_info \<Rightarrow> trace \<Rightarrow> (exn + json) \<times> trace" where
  "generate_structure env ti t =
     (let r = generator env t ti;
          t1 = t @ [Generate ti (case r of Inl e \<Rightarrow> Some e | Inr _ \<Rightarrow> None)]
      in case r of
           Inl e \<Rightarrow> (Inl e, t1)
         | Inr structure \<Rightarrow>
             (case (case structure of None \<Rightarrow> None | Some s \<Rightarrow> json_loads env s) of
                Some json_structure \<Rightarrow> (Inr json_structure, t1)
              | None \<Rightarrow> (Inr (fallback_structure ti), t1)))"

section \<open>process_tables\<close>

definition output_file :: string where
  "output_file = ''output/sap_tables_structure.json''"

text \<open>
  The \<open>try\<close> block of the loop body (lines 150-171). The dict \<open>structures\<close> is updated
  in place, so the handler and the next iteration see it as the block left it.
\<close>

definition process_try ::
  "'tag env \<Rightarrow> string \<Rightarrow> table_info \<Rightarrow> document \<Rightarrow> trace \<Rightarrow> (exn + unit) \<times> document \<times> trace" where
  "process_try env table_name' ti structures t =
     (case generate_structure env ti t of
        (Inl e, t1) \<Rightarrow> (Inl e, structures, t1)
      | (Inr json_structure, t1) \<Rightarrow>
          (case py_get json_structure ''fields'' of
             Inl e \<Rightarrow> (Inl e, structures, t1)
           | Inr v \<Rightarrow>
               if truthy v then
                 (let structures' = py_setitem structures table_name' json_structure;
                      t2 = log INFO (Estructura_generada table_name') t1;
                      w = write_json env t2 output_file structures';
                      t3 = t2 @ [WriteJson output_file structures' w]
                  in case outcome_exn w of
                       Some e \<Rightarrow> (Inl e, structures', t3)
                     | None \<Rightarrow> (Inr (), structures', t3))
               else (Inr (), structures, log INFO (No_genero_campos table_name') t1)))"

text \<open>The loop body (lines 135-175) for one \<open>table_name\<close>.\<close>

definition process_one ::
  "'tag env \<Rightarrow> string \<Rightarrow> document \<Rightarrow> trace \<Rightarrow> (exn + document) \<times> trace" where
  "process_one env table_name' structures t =
     (case get_table_info env table_name' (log INFO (Procesando table_name') t) of
        (Inl e, t1) \<Rightarrow> (Inl e, t1)
      | (Inr None, t1) \<Rightarrow> (Inr structures, log INFO (No_se_encontro_info table_name') t1)
      | (Inr (Some ti), t1) \<Rightarrow>
          if fields_t ti = [] then
            (Inr structures, log INFO (No_tiene_campos table_name') t1)
          else
            (case process_try env table_name' ti structures t1 of
               (Inl e, structures', t2) \<Rightarrow>
                 (Inr structures', log ERROR (Error_generando table_name' e) t2)
             | (Inr u, structures', t2) \<Rightarrow> (Inr structures', t2)))"

text \<open>The \<open>for table_name in table_names\<close> loop (lines 134-175).\<close>

fun process_loop ::
  "'tag env \<Rightarrow> string list \<Rightarrow> document \<Rightarrow> trace \<Rightarrow> (exn + document) \<times> trace" where
  "process_loop env [] structures t = (Inr structures, t)"
| "process_loop env (table_name' # rest) structures t =
     (case process_one env table_name' structures t of
        (Inl e, t1) \<Rightarrow> (Inl e, t1)
      | (Inr structures', t1) \<Rightarrow> process_loop env rest structures' t1)"

text \<open>\<open>process_tables\<close> (lines 129-177): the loop from the empty dict.\<close>

definition process_tables ::
  "'tag env \<Rightarrow> string list \<Rightarrow> trace \<Rightarrow> (exn + document) \<times> trace" where
  "process_tables env table_names t = process_loop env table_names [] t"

section \<open>main\<close>

definition test_table :: string where
  "test_table = ''TCURR''"

definition test_output_file :: string where
  "test_output_file = ''output/tcurr_structure.json''"

definition input_file :: string where
  "input_file = ''sap_tables.csv''"

text \<open>The inner \<open>try\<close> block of the test with TCURR (lines 195-214).\<close>

definition test_try :: "'tag env \<Rightarrow> table_info \<Rightarrow> trace \<Rightarrow> (exn + unit) \<times> trace" where
  "test_try env ti t =
     (case generate_structure env ti t of
        (Inl e, t1) \<Rightarrow> (Inl e, t1)
      | (Inr json_structure, t1) \<Rightarrow>
          (let test_structure = [(test_table, json_structure)];
               w = write_json env t1 test_output_file test_structure;
               t2 = t1 @ [WriteJson test_output_file test_structure w]
           in case outcome_exn w of
                Some e \<Rightarrow> (Inl e, t2)
              | None \<Rightarrow> (Inr (), log INFO (Prueba_completada test_output_file) t2)))"

text \<open>\<open>line.strip().strip('",').strip()\<close> (line 231).\<close>

definition clean_line :: "string \<Rightarrow> string" where
  "clean_line line = py_strip (py_strip_chars (py_strip line) [CHR 0x22, CHR '',''])"

text \<open>The loop over the lines of the input file (lines 229-233).\<close>

fun load_tables :: "string list \<Rightarrow> string list \<Rightarrow> string list" where
  "load_tables [] tables = tables"
| "load_tables (line # rest) tables =
     (let table_name' = clean_line line
      in if table_name' \<noteq> [] \<and> \<not> startswith table_name' ''table_name''
         then load_tables rest (tables @ [table_name'])
         else load_tables rest tables)"

text \<open>How a block of \<open>main\<close> ends: by \<open>return\<close>, or by reaching its last statement.\<close>

datatype flow = Returned | Completed

text \<open>The complete process (lines 225-250).\<close>

definition main_batch :: "'tag env \<Rightarrow> trace \<Rightarrow> (exn + flow) \<times> trace" where
  "main_batch env t =
     (let r = read_lines env t input_file;
          t1 = t @ [ReadLines input_file (case r of Inl e \<Rightarrow> Some e | Inr _ \<Rightarrow> None)]
      in case r of
           Inl e \<Rightarrow> (Inl e, t1)
         | Inr lines \<Rightarrow>
             (let tables = load_tables lines []
              in if tables = [] then (Inr Returned, log ERROR Archivo_vacio t1)
                 else
                   (case process_tables env tables
                           (log INFO (Se_encontraron (length tables)) t1) of
                      (Inl e, t2) \<Rightarrow> (Inl e, t2)
                    | (Inr structures, t2) \<Rightarrow>
                        (let w = write_json env t2 output_file structures;
                             t3 = t2 @ [WriteJson output_file structures w]
                         in case outcome_exn w of
                              Some e \<Rightarrow> (Inl e, t3)
                            | None \<Rightarrow>
                                (Inr Completed,
                                 log INFO Fin_del_proceso
                                   (log INFO (Estructuras_guardadas output_file) t3))))))"

text \<open>The outer \<open>try\<close> block of \<open>main\<close> (lines 183-250).\<close>

definition main_try :: "'tag env \<Rightarrow> trace \<Rightarrow> (exn + flow) \<times> trace" where
  "main_try env t =
     (case get_table_info env test_table
             (log INFO (Obteniendo_prueba test_table) (log INFO Iniciando_prueba t)) of
        (Inl e, t1) \<Rightarrow> (Inl e, t1)
      | (Inr None, t1) \<Rightarrow> (Inr Returned, log ERROR No_se_pudo_obtener t1)
      | (Inr (Some ti), t1) \<Rightarrow>
          (case test_try env ti t1 of
             (Inl e, t2) \<Rightarrow> (Inr Returned, log ERROR (Error_en_prueba e) t2)
           | (Inr u, t2) \<Rightarrow>
               main_batch env (log INFO Iniciando_proceso (log INFO Fin_de_prueba t2))))"

text \<open>\<open>main\<close> (lines 179-257) with its two handlers.\<close>

definition main :: "'tag env \<Rightarrow> trace \<Rightarrow> (exn + unit) \<times> trace" where
  "main env t =
     (case main_try env (log INFO Iniciando_analisis t) of
        (Inr Returned, t1) \<Rightarrow> (Inr (), t1)
      | (Inr Completed, t1) \<Rightarrow> (Inr (), log INFO Proceso_finalizado t1)
      | (Inl FileNotFoundError, t1) \<Rightarrow>
          (Inr (), log INFO Proceso_finalizado (log ERROR No_se_encontro_archivo t1))
      | (Inl e, t1) \<Rightarrow>
          (Inr (), log INFO Proceso_finalizado (log ERROR (Error_en_proceso e) t1)))"

section \<open>Reading a trace\<close>

text \<open>The parts of a trace the properties below speak about, each in order of occurrence.\<close>

definition observe :: "(event \<Rightarrow> 'a list) \<Rightarrow> trace \<Rightarrow> 'a list" where
  "observe f t = concat (map f t)"

text \<open>The URLs requested.\<close>

fun fetch_of :: "event \<Rightarrow> string list" where
  "fetch_of (HttpGet u x) = [u]"
| "fetch_of _ = []"

text \<open>The identifiers the batch loop started on (line 135).\<close>

fun visit_of :: "event \<Rightarrow> string list" where
  "visit_of (Log l (Procesando n)) = [n]"
| "visit_of _ = []"

text \<open>The identifiers stored in \<open>structures\<close> (line 164 follows the assignment of line 163).\<close>

fun stored_of :: "event \<Rightarrow> string list" where
  "stored_of (Log l (Estructura_generada n)) = [n]"
| "stored_of _ = []"

text \<open>The writes attempted, and the reads of the input file.\<close>

fun write_of :: "event \<Rightarrow> (string \<times> document \<times> outcome) list" where
  "write_of (WriteJson p d x) = [(p, d, x)]"
| "write_of _ = []"

fun read_of :: "event \<Rightarrow> string list" where
  "read_of (ReadLines p x) = [p]"
| "read_of _ = []"

text \<open>
  The complete document that the writes of a trace have left on a path, if any: a write
  that succeeds leaves its document, a write whose \<open>open\<close> raises changes nothing, and a
  write that raises after \<open>open\<close> leaves no document.
\<close>

fun apply_write :: "string \<Rightarrow> document option \<Rightarrow> string \<times> document \<times> outcome \<Rightarrow> document option" where
  "apply_write p cur (q, d, Written) = (if q = p then Some d else cur)"
| "apply_write p cur (q, d, Open_failed e) = cur"
| "apply_write p cur (q, d, Dump_failed e) = (if q = p then None else cur)"

definition persisted :: "string \<Rightarrow> trace \<Rightarrow> document option" where
  "persisted p t = foldl (apply_write p) None (observe write_of t)"

text \<open>The exception a call ended with, and the exception an error record reports.\<close>

fun raised_of :: "event \<Rightarrow> exn option" where
  "raised_of (HttpGet u x) = x"
| "raised_of (Generate ti x) = x"
| "raised_of (WriteJson p d w) = outcome_exn w"
| "raised_of (ReadLines p x) = x"
| "raised_of (Log l m) = None"

fun msg_exn :: "msg \<Rightarrow> exn option" where
  "msg_exn (Error_obteniendo n e) = Some e"
| "msg_exn (Error_extrayendo e) = Some e"
| "msg_exn (Error_generando n e) = Some e"
| "msg_exn (Error_en_prueba e) = Some e"
| "msg_exn (Error_en_proceso e) = Some e"
| "msg_exn _ = None"

fun error_of :: "event \<Rightarrow> exn list" where
  "error_of (Log ERROR m) = (case msg_exn m of None \<Rightarrow> [] | Some e \<Rightarrow> [e])"
| "error_of _ = []"

section \<open>Pages as trees\<close>

text \<open>
  A parsed page for concrete runs: text, elements with their children, and a node whose
  text cannot be read, which makes the handlers observable.
\<close>

datatype node = Text string | Elem string "node list" | Faulty

fun descendants :: "node \<Rightarrow> node list" where
  "descendants (Elem n cs) = concat (map (\<lambda>c. c # descendants c) cs)"
| "descendants _ = []"

fun is_tag :: "string list \<Rightarrow> node \<Rightarrow> bool" where
  "is_tag ns (Elem n cs) = (n \<in> set ns)"
| "is_tag ns _ = False"

definition tree_find_all :: "node \<Rightarrow> string list \<Rightarrow> node list" where
  "tree_find_all nd ns = filter (is_tag ns) (descendants nd)"

definition tree_find :: "node \<Rightarrow> string \<Rightarrow> node option" where
  "tree_find nd n = (case tree_find_all nd [n] of [] \<Rightarrow> None | x # _ \<Rightarrow> Some x)"

fun join_texts :: "(exn + string) list \<Rightarrow> exn + string" where
  "join_texts [] = Inr []"
| "join_texts (Inl e # rs) = Inl e"
| "join_texts (Inr s # rs) = (case join_texts rs of Inl e \<Rightarrow> Inl e | Inr s' \<Rightarrow> Inr (s @ s'))"

fun tree_text :: "node \<Rightarrow> exn + string" where
  "tree_text (Text s) = Inr s"
| "tree_text (Elem n cs) = join_texts (map tree_text cs)"
| "tree_text Faulty = Inl (Exception ''unreadable'')"

text \<open>
  An environment over such pages: the site as a table from URL to page (any other URL
  is an HTTP error), the transformer's successive answers (the k-th call gets the k-th
  answer, and raises when there is none left), the strings \<open>json.loads\<close> accepts with
  their values, the outcomes of the writes that do not succeed (the k-th write of a run
  has the outcome listed for k, and succeeds when none is listed), and the lines of the
  input file if it exists.
\<close>

fun generate_of :: "event \<Rightarrow> unit list" where
  "generate_of (Generate ti x) = [()]"
| "generate_of _ = []"

definition tree_env ::
  "(string \<times> node) list \<Rightarrow> (string option) list \<Rightarrow> (string \<times> json) list \<Rightarrow>
   (nat \<times> outcome) list \<Rightarrow> string list option \<Rightarrow> node env" where
  "tree_env site answers parses faults lines =
     \<lparr>http_get = (\<lambda>t url. case map_of site url of
                            None \<Rightarrow> Inl (Exception ''404'') | Some page \<Rightarrow> Inr page),
      find = (\<lambda>nd n. Inr (tree_find nd n)),
      find_all = (\<lambda>nd ns. Inr (tree_find_all nd ns)),
      text_of = tree_text,
      generator = (\<lambda>t ti. let k = length (observe generate_of t)
                           in if k < length answers then Inr (answers ! k)
                              else Inl (Exception ''no answer'')),
      json_loads = map_of parses,
      write_json = (\<lambda>t p d. case map_of faults (length (observe write_of t)) of
                               None \<Rightarrow> Written | Some w \<Rightarrow> w),
      read_lines = (\<lambda>t p. case lines of None \<Rightarrow> Inl FileNotFoundError | Some ls \<Rightarrow> Inr ls)\<rparr>"

definition td :: "string \<Rightarrow> node" where
  "td s = Elem ''td'' [Text s]"

text \<open>
  A page with a heading and a table: the header row, a row of 6 cells, a row of 4 cells
  and a row of 2 cells.
\<close>

definition tcurr_rows :: "node list" where
  "tcurr_rows =
     [Elem ''tr'' [Elem ''th'' [Text ''Field'']],
      Elem ''tr'' [td ''MANDT'', td ''MANDT'', td ''X'', td '' CLNT'', td ''3 '', td ''0''],
      Elem ''tr'' [td ''KURST'', td ''KURST'', td ''X'', td ''CHAR''],
      Elem ''tr'' [td ''a'', td ''b'']]"

definition tcurr_page :: node where
  "tcurr_page = Elem ''html''
     [Elem ''h1'' [Text '' Currency Exchange Rates ''], Elem ''table'' tcurr_rows]"

text \<open>A page with a heading and no table.\<close>

definition bare_page :: node where
  "bare_page = Elem ''html'' [Elem ''h1'' [Text ''Currency Exchange Rates'']]"

text \<open>A page whose second data row has a cell that cannot be read.\<close>

definition faulty_rows :: "node list" where
  "faulty_rows =
     [Elem ''tr'' [Elem ''th'' [Text ''Field'']],
      Elem ''tr'' [td ''KURST'', td ''KURST'', td ''X'', td ''CHAR''],
      Elem ''tr'' [td ''GDATU'', Elem ''td'' [Faulty], td ''X'', td ''CHAR''],
      Elem ''tr'' [td ''UKURS'', td ''UKURS'', td ''X'', td ''DEC'']]"

definition faulty_page :: node where
  "faulty_page = Elem ''html'' [Elem ''table'' faulty_rows]"

text \<open>A page with the same table and no heading.\<close>

definition untitled_page :: node where
  "untitled_page = Elem ''html'' [Elem ''table'' tcurr_rows]"

text \<open>A site with these pages; every other URL is an HTTP error.\<close>

definition site :: "(string \<times> node) list" where
  "site = [(url_of ''TCURR'', tcurr_page), (url_of ''T000'', bare_page),
           (url_of ''BAD'', faulty_page), (url_of ''T001'', untitled_page)]"

text \<open>Environments whose parser raises in \<open>find\<close>, and in \<open>find_all\<close>.\<close>

definition broken_find :: "node env" where
  "broken_find = (tree_env site [] [] [] None)\<lparr>find := (\<lambda>nd n. Inl (Exception ''parser''))\<rparr>"

definition broken_find_all :: "node env" where
  "broken_find_all =
     (tree_env site [] [] [] None)\<lparr>find_all := (\<lambda>nd ns. Inl (Exception ''parser''))\<rparr>"

text \<open>What \<open>get_table_info\<close> returns for the first page.\<close>

definition tcurr_info :: table_info where
  "tcurr_info =
     \<lparr>table_name = ''TCURR'', description = ''Currency Exchange Rates'',
      fields_t =
        [\<lparr>name = ''MANDT'', data_element = ''MANDT'', type = ''CLNT'',
           length_f = ''3'', decimals = ''0''\<rparr>,
         \<lparr>name = ''KURST'', data_element = ''KURST'', type = ''CHAR'',
           length_f = [], decimals = []\<rparr>]\<rparr>"

text \<open>What it returns for the page with an unreadable cell, which has no heading.\<close>

definition bad_info :: table_info where
  "bad_info =
     \<lparr>table_name = ''BAD'', description = [],
      fields_t =
        [\<lparr>name = ''KURST'', data_element = ''KURST'', type = ''CHAR'',
           length_f = [], decimals = []\<rparr>]\<rparr>"

section \<open>Trace semantics of the batch loop\<close>

text \<open>
  The properties of the loop are stated over the records it leaves in the trace. A list
  of assignments \<open>d[k] = v\<close> applied to a dict in order, and the states of the dict after
  each of them:
\<close>

fun assign_all :: "document \<Rightarrow> (string \<times> json) list \<Rightarrow> document" where
  "assign_all d [] = d"
| "assign_all d ((k, v) # kvs) = assign_all (py_setitem d k v) kvs"

fun snapshots :: "document \<Rightarrow> (string \<times> json) list \<Rightarrow> document list" where
  "snapshots d [] = []"
| "snapshots d ((k, v) # kvs) = py_setitem d k v # snapshots (py_setitem d k v) kvs"

text \<open>
  Nothing but log records up to the record that the loop starts on the next identifier
  (or to the end of the trace):
\<close>

fun quiet_until_next :: "trace \<Rightarrow> bool" where
  "quiet_until_next [] = True"
| "quiet_until_next (Log l (Procesando n) # rest) = True"
| "quiet_until_next (Log l m # rest) = quiet_until_next rest"
| "quiet_until_next (ev # rest) = False"

text \<open>
  Every call that raised is followed at once by an error record that carries its
  exception, after which the trace is quiet until the next identifier:
\<close>

fun failures_logged :: "trace \<Rightarrow> bool" where
  "failures_logged [] = True"
| "failures_logged (ev # rest) =
     ((case raised_of ev of
         None \<Rightarrow> True
       | Some e \<Rightarrow>
           (case rest of
              Log ERROR m # rest' \<Rightarrow> msg_exn m = Some e \<and> quiet_until_next rest'
            | _ \<Rightarrow> False))
      \<and> failures_logged rest)"

text \<open>The table names the generator was called with.\<close>

fun generated_of :: "event \<Rightarrow> string list" where
  "generated_of (Generate ti x) = [table_name ti]"
| "generated_of _ = []"

text \<open>What \<open>_get_fields\<close> adds to the trace: nothing, or one error record.\<close>

definition extraction_log :: "trace \<Rightarrow> bool" where
  "extraction_log xs = (xs = [] \<or> (\<exists>e. xs = [Log ERROR (Error_extrayendo e)]))"

text \<open>
  The seven ways through the loop body, each with the records it adds to the trace and
  the dict it leaves: the fetch failed; the table has no fields; the generator raised;
  \<open>.get\<close> raised on the value parsed; that value has no usable \<open>fields\<close>; the structure
  was stored and written; it was stored and the write raised.
\<close>

inductive step_events :: "'tag env \<Rightarrow> string \<Rightarrow> document \<Rightarrow> document \<Rightarrow> trace \<Rightarrow> bool"
  for env :: "'tag env" and n :: string and s :: document where
  fetch_failed:
    "step_events env n s s
       [Log INFO (Procesando n), HttpGet (url_of n) (Some e),
        Log ERROR (Error_obteniendo n e), Log INFO (No_se_encontro_info n)]"
| no_fields:
    "extraction_log xs \<Longrightarrow>
     step_events env n s s
       (Log INFO (Procesando n) # HttpGet (url_of n) None # xs @ [Log INFO (No_tiene_campos n)])"
| generator_failed:
    "extraction_log xs \<Longrightarrow> table_name ti = n \<Longrightarrow>
     step_events env n s s
       (Log INFO (Procesando n) # HttpGet (url_of n) None # xs @
        [Generate ti (Some e), Log ERROR (Error_generando n e)])"
| get_failed:
    "extraction_log xs \<Longrightarrow> table_name ti = n \<Longrightarrow>
     step_events env n s s
       (Log INFO (Procesando n) # HttpGet (url_of n) None # xs @
        [Generate ti None, Log ERROR (Error_generando n e)])"
| no_valid_fields:
    "extraction_log xs \<Longrightarrow> table_name ti = n \<Longrightarrow>
     step_events env n s s
       (Log INFO (Procesando n) # HttpGet (url_of n) None # xs @
        [Generate ti None, Log INFO (No_genero_campos n)])"
| stored:
    "extraction_log xs \<Longrightarrow> table_name ti = n \<Longrightarrow>
     py_get js ''fields'' = Inr v \<Longrightarrow> truthy v \<Longrightarrow>
     write_json env h output_file (py_setitem s n js) = Written \<Longrightarrow>
     step_events env n s (py_setitem s n js)
       (Log INFO (Procesando n) # HttpGet (url_of n) None # xs @
        [Generate ti None, Log INFO (Estructura_generada n),
         WriteJson output_file (py_setitem s n js) Written])"
| stored_unwritten:
    "extraction_log xs \<Longrightarrow> table_name ti = n \<Longrightarrow>
     py_get js ''fields'' = Inr v \<Longrightarrow> truthy v \<Longrightarrow>
     write_json env h output_file (py_setitem s n js) = w \<Longrightarrow> outcome_exn w = Some e \<Longrightarrow>
     step_events env n s (py_setitem s n js)
       (Log INFO (Procesando n) # HttpGet (url_of n) None # xs @
        [Generate ti None, Log INFO (Estructura_generada n),
         WriteJson output_file (py_setitem s n js) w,
         Log ERROR (Error_generando n e)])"

text \<open>The loop: the steps of the identifiers one after the other.\<close>

inductive run_events :: "'tag env \<Rightarrow> string list \<Rightarrow> document \<Rightarrow> document \<Rightarrow> trace \<Rightarrow> bool"
  for env :: "'tag env" where
  run_done: "run_events env [] s s []"
| run_next: "step_events env n s s1 xs \<Longrightarrow> run_events env ns s1 s2 ys \<Longrightarrow>
         run_events env (n # ns) s s2 (xs @ ys)"

text \<open>
  Every record that an identifier was stored is followed at once by a write to the
  output file:
\<close>

fun immediately_written :: "trace \<Rightarrow> bool" where
  "immediately_written [] = True"
| "immediately_written (ev # rest) =
     ((case stored_of ev of
         [] \<Rightarrow> True
       | n # ns \<Rightarrow> (case rest of WriteJson p d x # rest' \<Rightarrow> p = output_file | _ \<Rightarrow> False))
      \<and> immediately_written rest)"

text \<open>
  The record the specification describes for a row, given the texts of its cells: cell 0
  is the name, cell 1 the data element, cell 3 the type, cell 4 the length and cell 5 the
  decimals when the row has them, each trimmed.
\<close>

definition field_of_cells :: "string list \<Rightarrow> field" where
  "field_of_cells cs =
     \<lparr>name = py_strip (cs ! 0),
      data_element = py_strip (cs ! 1),
      type = py_strip (cs ! 3),
      length_f = (if length cs \<ge> 5 then py_strip (cs ! 4) else []),
      decimals = (if length cs \<ge> 6 then py_strip (cs ! 5) else [])\<rparr>"

section \<open>Field extraction\<close>

lemma fields_loop_append:
  "fields_loop env (xs @ ys) fs =
     (case fields_loop env xs fs of
        (Some e, fs') \<Rightarrow> (Some e, fs')
      | (None, fs') \<Rightarrow> fields_loop env ys fs')"
  by (induction xs arbitrary: fs) (auto split: sum.splits option.splits)

lemma fields_loop_acc:
  "fields_loop env rows fs =
     (fst (fields_loop env rows []), fs @ snd (fields_loop env rows []))"
proof (induction rows arbitrary: fs)
  case Nil
  show ?case by simp
next
  case (Cons row rows)
  show ?case
  proof (cases "read_row env row")
    case (Inl e)
    then show ?thesis by simp
  next
    case (Inr r)
    show ?thesis
    proof (cases r)
      case None
      with Inr Cons.IH [of fs] show ?thesis by simp
    next
      case (Some f)
      with Inr Cons.IH [of "fs @ [f]"] Cons.IH [of "[f]"] show ?thesis by simp
    qed
  qed
qed

lemma get_fields_total: "\<exists>fs t'. get_fields env soup t = (Inr fs, t')"
  by (cases "get_fields_try env soup" rule: prod.exhaust; cases "fst (get_fields_try env soup)")
     (auto simp: get_fields_def)

text \<open>
  C6. \<open>_get_fields\<close> never raises to its caller, whatever the page's methods do. When the
  page has no \<open>table\<close> the result is the empty list and nothing is logged. When
  \<open>soup.find('table')\<close> or \<open>table.find_all('tr')\<close> raises, the exception is logged as an
  error and the result is the empty list. When reading a row raises, after rows that were
  read without an exception, the exception is logged as an error and the result is the
  list of fields accumulated from the rows before it. When no row raises, the result is
  the list the loop has built, and nothing is logged.
\<close>

theorem get_fields_never_raises:
  "(\<exists>fs t'. get_fields env soup t = (Inr fs, t'))
   \<and> (find env soup ''table'' = Inr None \<longrightarrow> get_fields env soup t = (Inr [], t))
   \<and> (\<forall>e. find env soup ''table'' = Inl e \<longrightarrow>
          get_fields env soup t = (Inr [], t @ [Log ERROR (Error_extrayendo e)]))
   \<and> (\<forall>tb e. find env soup ''table'' = Inr (Some tb) \<and> find_all env tb [''tr''] = Inl e \<longrightarrow>
          get_fields env soup t = (Inr [], t @ [Log ERROR (Error_extrayendo e)]))
   \<and> (\<forall>tb trs good bad rest e.
          find env soup ''table'' = Inr (Some tb) \<and> find_all env tb [''tr''] = Inr trs \<and>
          drop 1 trs = good @ bad # rest \<and> fst (fields_loop env good []) = None \<and>
          read_row env bad = Inl e \<longrightarrow>
          get_fields env soup t =
            (Inr (snd (fields_loop env good [])), t @ [Log ERROR (Error_extrayendo e)]))
   \<and> (\<forall>tb trs.
          find env soup ''table'' = Inr (Some tb) \<and> find_all env tb [''tr''] = Inr trs \<and>
          fst (fields_loop env (drop 1 trs) []) = None \<longrightarrow>
          get_fields env soup t = (Inr (snd (fields_loop env (drop 1 trs) [])), t))"
proof (intro conjI allI impI)
  show "\<exists>fs t'. get_fields env soup t = (Inr fs, t')" by (rule get_fields_total)
next
  assume "find env soup ''table'' = Inr None"
  then show "get_fields env soup t = (Inr [], t)"
    by (simp add: get_fields_def get_fields_try_def)
next
  fix e assume "find env soup ''table'' = Inl e"
  then show "get_fields env soup t = (Inr [], t @ [Log ERROR (Error_extrayendo e)])"
    by (simp add: get_fields_def get_fields_try_def log_def)
next
  fix tb e
  assume "find env soup ''table'' = Inr (Some tb) \<and> find_all env tb [''tr''] = Inl e"
  then show "get_fields env soup t = (Inr [], t @ [Log ERROR (Error_extrayendo e)])"
    by (simp add: get_fields_def get_fields_try_def log_def)
next
  fix tb trs good bad rest e
  assume h: "find env soup ''table'' = Inr (Some tb) \<and> find_all env tb [''tr''] = Inr trs \<and>
          drop 1 trs = good @ bad # rest \<and> fst (fields_loop env good []) = None \<and>
          read_row env bad = Inl e"
  obtain fs where g: "fields_loop env good [] = (None, fs)"
    using h by (cases "fields_loop env good []") auto
  have "fields_loop env (good @ bad # rest) [] = (Some e, fs)"
    using h g by (simp add: fields_loop_append)
  then show "get_fields env soup t =
            (Inr (snd (fields_loop env good [])), t @ [Log ERROR (Error_extrayendo e)])"
    using h g by (simp add: get_fields_def get_fields_try_def log_def)
next
  fix tb trs
  assume h: "find env soup ''table'' = Inr (Some tb) \<and> find_all env tb [''tr''] = Inr trs \<and>
          fst (fields_loop env (drop 1 trs) []) = None"
  obtain fs where g: "fields_loop env (drop 1 trs) [] = (None, fs)"
    using h by (cases "fields_loop env (drop 1 trs) []") auto
  show "get_fields env soup t = (Inr (snd (fields_loop env (drop 1 trs) [])), t)"
    using h g by (simp add: get_fields_def get_fields_try_def)
qed

lemma make_field_ok:
  assumes "length cols \<ge> 4" "\<forall>c \<in> set cols. text_of env c = Inr (txt c)"
  shows "make_field env cols = Inr
           \<lparr>name = py_strip (txt (cols ! 0)),
            data_element = py_strip (txt (cols ! 1)),
            type = py_strip (txt (cols ! 3)),
            length_f = (if length cols \<ge> 5 then py_strip (txt (cols ! 4)) else []),
            decimals = (if length cols \<ge> 6 then py_strip (txt (cols ! 5)) else [])\<rparr>"
proof -
  have c: "\<And>i. i < length cols \<Longrightarrow> cell env cols i = Inr (py_strip (txt (cols ! i)))"
    using assms(2) by (simp add: cell_def)
  have c0: "cell env cols 0 = Inr (py_strip (txt (cols ! 0)))" using assms(1) by (intro c) arith
  have c1: "cell env cols 1 = Inr (py_strip (txt (cols ! 1)))" using assms(1) by (intro c) arith
  have c3: "cell env cols 3 = Inr (py_strip (txt (cols ! 3)))" using assms(1) by (intro c) arith
  have c4: "length cols > 4 \<Longrightarrow> cell env cols 4 = Inr (py_strip (txt (cols ! 4)))" by (intro c)
  have c5: "length cols > 5 \<Longrightarrow> cell env cols 5 = Inr (py_strip (txt (cols ! 5)))" by (intro c)
  show ?thesis
    unfolding make_field_def c0 c1 c3 using c4 c5 by (auto simp: not_less)
qed

lemma fields_loop_ok:
  assumes "\<forall>r \<in> set rows. find_all env r [''td'', ''th''] = Inr (cells r)"
    and "\<forall>r \<in> set rows. \<forall>c \<in> set (cells r). text_of env c = Inr (txt c)"
  shows "fields_loop env rows fs = (None, fs @ map
           (\<lambda>r. \<lparr>name = py_strip (txt (cells r ! 0)),
            data_element = py_strip (txt (cells r ! 1)),
            type = py_strip (txt (cells r ! 3)),
            length_f = (if length (cells r) \<ge> 5 then py_strip (txt (cells r ! 4)) else []),
            decimals = (if length (cells r) \<ge> 6 then py_strip (txt (cells r ! 5)) else [])\<rparr>)
           (filter (\<lambda>r. length (cells r) \<ge> 4) rows))"
  using assms
proof (induction rows arbitrary: fs)
  case Nil
  show ?case by simp
next
  case (Cons r rows)
  have fa: "find_all env r [''td'', ''th''] = Inr (cells r)" using Cons.prems(1) by simp
  have tx: "\<forall>c \<in> set (cells r). text_of env c = Inr (txt c)" using Cons.prems(2) by simp
  have ih: "\<And>fs. fields_loop env rows fs = (None, fs @ map
           (\<lambda>r. \<lparr>name = py_strip (txt (cells r ! 0)),
            data_element = py_strip (txt (cells r ! 1)),
            type = py_strip (txt (cells r ! 3)),
            length_f = (if length (cells r) \<ge> 5 then py_strip (txt (cells r ! 4)) else []),
            decimals = (if length (cells r) \<ge> 6 then py_strip (txt (cells r ! 5)) else [])\<rparr>)
           (filter (\<lambda>r. length (cells r) \<ge> 4) rows))"
    using Cons.IH Cons.prems by simp
  show ?case
  proof (cases "length (cells r) \<ge> 4")
    case True
    then show ?thesis
      using make_field_ok [OF True tx] fa by (simp add: read_row_def ih)
  next
    case False
    then show ?thesis using fa by (simp add: read_row_def ih)
  qed
qed

lemma field_of_cells_map:
  assumes "4 \<le> length cs"
  shows "field_of_cells (map f cs) =
           \<lparr>name = py_strip (f (cs ! 0)),
            data_element = py_strip (f (cs ! 1)),
            type = py_strip (f (cs ! 3)),
            length_f = (if length cs \<ge> 5 then py_strip (f (cs ! 4)) else []),
            decimals = (if length cs \<ge> 6 then py_strip (f (cs ! 5)) else [])\<rparr>"
proof -
  have n: "\<And>i. i < length cs \<Longrightarrow> map f cs ! i = f (cs ! i)" by simp
  have "map f cs ! 0 = f (cs ! 0)" "map f cs ! 1 = f (cs ! 1)" "map f cs ! 3 = f (cs ! 3)"
    using assms by (simp_all only: n)
  moreover have "5 \<le> length cs \<Longrightarrow> map f cs ! 4 = f (cs ! 4)"
    and "6 \<le> length cs \<Longrightarrow> map f cs ! 5 = f (cs ! 5)"
    by (simp_all only: n)
  ultimately show ?thesis
    by (simp add: field_of_cells_def)
qed

text \<open>
  C7. When the page's methods do not raise, the fields returned are, in order, one record
  for each row after the first row of the first table that has at least 4 cells, and
  none for a row with fewer; the record takes its name from cell 0, its data element from
  cell 1, its type from cell 3 (cell 2 is not read), its length from cell 4 when there are
  at least 5 cells and its decimals from cell 5 when there are at least 6, the empty
  string otherwise, each value trimmed of surrounding whitespace.
\<close>

theorem get_fields_rows:
  assumes "find env soup ''table'' = Inr (Some tb)"
    and "find_all env tb [''tr''] = Inr trs"
    and "\<forall>r \<in> set (drop 1 trs). find_all env r [''td'', ''th''] = Inr (cells r)"
    and "\<forall>r \<in> set (drop 1 trs). \<forall>c \<in> set (cells r). text_of env c = Inr (txt c)"
  shows "get_fields env soup t =
     (Inr (map (\<lambda>r. field_of_cells (map txt (cells r)))
             (filter (\<lambda>r. length (cells r) \<ge> 4) (drop 1 trs))), t)"
proof -
  have "map (\<lambda>r. \<lparr>name = py_strip (txt (cells r ! 0)),
            data_element = py_strip (txt (cells r ! 1)),
            type = py_strip (txt (cells r ! 3)),
            length_f = (if length (cells r) \<ge> 5 then py_strip (txt (cells r ! 4)) else []),
            decimals = (if length (cells r) \<ge> 6 then py_strip (txt (cells r ! 5)) else [])\<rparr>)
           (filter (\<lambda>r. length (cells r) \<ge> 4) (drop 1 trs))
      = map (\<lambda>r. field_of_cells (map txt (cells r)))
           (filter (\<lambda>r. length (cells r) \<ge> 4) (drop 1 trs))"
    by (rule map_cong) (simp_all add: field_of_cells_map)
  then show ?thesis
    using assms(1,2) fields_loop_ok [OF assms(3,4), of "[]"]
    by (simp add: get_fields_def get_fields_try_def)
qed

lemma get_description_total: "\<exists>d. get_description env soup = Inr d"
  by (simp add: get_description_def split: sum.splits)

lemma get_fields_shape:
  "\<exists>fs xs. get_fields env soup t = (Inr fs, t @ xs) \<and> extraction_log xs"
proof (cases "get_fields_try env soup")
  case (Pair r fs)
  then show ?thesis
    by (cases r) (simp_all add: get_fields_def log_def extraction_log_def)
qed

lemma get_table_info_shape:
  "(\<exists>e. get_table_info env n t =
          (Inr None, t @ [HttpGet (url_of n) (Some e), Log ERROR (Error_obteniendo n e)]))
   \<or> (\<exists>ti xs. get_table_info env n t = (Inr (Some ti), t @ HttpGet (url_of n) None # xs) \<and>
          table_name ti = n \<and> extraction_log xs)"
proof (cases "http_get env t (url_of n)")
  case (Inl e)
  then show ?thesis
    by (simp add: get_table_info_def get_table_info_try_def url_of_def log_def Let_def)
next
  case (Inr soup)
  obtain d where d: "get_description env soup = Inr d"
    using get_description_total [of env soup] by blast
  obtain fs xs where f: "get_fields env soup (t @ [HttpGet (url_of n) None]) =
      (Inr fs, (t @ [HttpGet (url_of n) None]) @ xs)" and x: "extraction_log xs"
    using get_fields_shape [of env soup "t @ [HttpGet (url_of n) None]"] by blast
  show ?thesis
    using Inr d f x
    by (simp add: get_table_info_def get_table_info_try_def url_of_def Let_def)
qed

lemma generate_structure_shape:
  "(\<exists>e. generate_structure env ti t = (Inl e, t @ [Generate ti (Some e)]))
   \<or> (\<exists>js. generate_structure env ti t = (Inr js, t @ [Generate ti None]))"
  by (cases "generator env t ti") (auto simp: generate_structure_def Let_def split: option.splits)

lemma process_one_step:
  "\<exists>s' xs. process_one env n s t = (Inr s', t @ xs) \<and> step_events env n s s' xs"
proof -
  let ?t0 = "log INFO (Procesando n) t"
  from get_table_info_shape [of env n ?t0]
  consider (failed) e where "get_table_info env n ?t0 =
          (Inr None, ?t0 @ [HttpGet (url_of n) (Some e), Log ERROR (Error_obteniendo n e)])"
    | (fetched) ti xs where "get_table_info env n ?t0 =
          (Inr (Some ti), ?t0 @ HttpGet (url_of n) None # xs)" "table_name ti = n"
          "extraction_log xs"
    by blast
  then show ?thesis
  proof cases
    case failed
    then show ?thesis
      using step_events.fetch_failed [of env n s e]
      by (simp add: process_one_def log_def)
  next
    case fetched
    let ?t1 = "?t0 @ HttpGet (url_of n) None # xs"
    show ?thesis
    proof (cases "fields_t ti = []")
      case True
      then show ?thesis
        using fetched step_events.no_fields [of xs env n s]
        by (simp add: process_one_def log_def)
    next
      case False
      from generate_structure_shape [of env ti ?t1]
      show ?thesis
      proof (elim disjE exE)
        fix e assume g: "generate_structure env ti ?t1 = (Inl e, ?t1 @ [Generate ti (Some e)])"
        show ?thesis
          using False fetched g step_events.generator_failed [of xs ti n env s e]
          by (simp add: process_one_def process_try_def log_def Let_def)
      next
        fix js assume g: "generate_structure env ti ?t1 = (Inr js, ?t1 @ [Generate ti None])"
        show ?thesis
        proof (cases "py_get js ''fields''")
          case (Inl e)
          then show ?thesis
            using False fetched g step_events.get_failed [of xs ti n env s e]
            by (simp add: process_one_def process_try_def log_def Let_def)
        next
          case (Inr v)
          show ?thesis
          proof (cases "truthy v")
            case nt: False
            then show ?thesis
              using Inr False fetched g step_events.no_valid_fields [of xs ti n env s]
              by (simp add: process_one_def process_try_def log_def Let_def)
          next
            case tr: True
            let ?h = "log INFO (Estructura_generada n) (?t1 @ [Generate ti None])"
            show ?thesis
            proof (cases "outcome_exn (write_json env ?h output_file (py_setitem s n js))")
              case None
              then have "write_json env ?h output_file (py_setitem s n js) = Written"
                by (cases "write_json env ?h output_file (py_setitem s n js)") simp_all
              then show ?thesis
                using tr Inr False fetched g
                  step_events.stored [of xs ti n js v env ?h s]
                by (simp add: process_one_def process_try_def log_def Let_def)
            next
              case (Some e)
              then show ?thesis
                using tr Inr False fetched g
                  step_events.stored_unwritten [of xs ti n js v env ?h s
                    "write_json env ?h output_file (py_setitem s n js)" e]
                by (simp add: process_one_def process_try_def log_def Let_def)
            qed
          qed
        qed
      qed
    qed
  qed
qed

lemma process_loop_run:
  "\<exists>s' xs. process_loop env ns s t = (Inr s', t @ xs) \<and> run_events env ns s s' xs"
proof (induction ns arbitrary: s t)
  case Nil
  show ?case by (simp add: run_events.run_done)
next
  case (Cons n ns)
  obtain s1 xs where 1: "process_one env n s t = (Inr s1, t @ xs)" "step_events env n s s1 xs"
    using process_one_step [of env n s t] by blast
  obtain s2 ys where 2: "process_loop env ns s1 (t @ xs) = (Inr s2, (t @ xs) @ ys)"
      "run_events env ns s1 s2 ys"
    using Cons.IH [of s1 "t @ xs"] by blast
  show ?case
    using 1 2 run_events.run_next [of env n s s1 xs ns s2 ys] by auto
qed

lemma observe_Nil [simp]: "observe f [] = []"
  by (simp add: observe_def)

lemma observe_Cons [simp]: "observe f (x # xs) = f x @ observe f xs"
  by (simp add: observe_def)

lemma observe_append [simp]: "observe f (xs @ ys) = observe f xs @ observe f ys"
  by (simp add: observe_def)

lemma py_setitem_update: "py_setitem d k v = AList.update k v d"
  by (induction d) auto

lemma keys_py_setitem:
  "map fst (py_setitem d k v) = (if k \<in> set (map fst d) then map fst d else map fst d @ [k])"
  by (simp add: py_setitem_update update_keys image_iff)


lemma distinct_py_setitem: "distinct (map fst d) \<Longrightarrow> distinct (map fst (py_setitem d k v))"
  by (simp add: py_setitem_update distinct_update)

lemma keys_assign_all: "set (map fst (assign_all d kvs)) = set (map fst d) \<union> set (map fst kvs)"
proof (induction d kvs rule: assign_all.induct)
  case (1 d)
  show ?case by simp
next
  case (2 d k v kvs)
  have "set (map fst (py_setitem d k v)) = insert k (set (map fst d))"
    by (auto simp: keys_py_setitem)
  with 2 show ?case by simp
qed

lemma distinct_assign_all:
  "distinct (map fst d) \<Longrightarrow> distinct (map fst (assign_all d kvs))"
  by (induction d kvs rule: assign_all.induct) (simp_all add: distinct_py_setitem)


lemma length_assign_all:
  "length (assign_all [] kvs) = card (set (map fst kvs))"
proof -
  have "distinct (map fst (assign_all [] kvs))"
    by (rule distinct_assign_all) simp
  then have "length (map fst (assign_all [] kvs)) = card (set (map fst (assign_all [] kvs)))"
    by (simp only: distinct_card)
  also have "set (map fst (assign_all [] kvs)) = set (map fst kvs)"
    by (simp only: keys_assign_all) simp
  finally show ?thesis by simp
qed

lemma last_snapshots: "last (d # snapshots d kvs) = assign_all d kvs"
  by (induction d kvs rule: snapshots.induct) simp_all

lemma assign_all_append: "assign_all d (xs @ ys) = assign_all (assign_all d xs) ys"
  by (induction d xs rule: assign_all.induct) simp_all

lemma snapshots_append:
  "snapshots d (xs @ ys) = snapshots d xs @ snapshots (assign_all d xs) ys"
  by (induction d xs rule: snapshots.induct) simp_all


lemma quiet_until_next_append:
  "quiet_until_next xs \<Longrightarrow> ys = [] \<or> (\<exists>l n zs. ys = Log l (Procesando n) # zs) \<Longrightarrow>
   quiet_until_next (xs @ ys)"
  by (induction xs rule: quiet_until_next.induct) auto

lemma failures_logged_append:
  assumes "failures_logged xs" "failures_logged ys"
    and "ys = [] \<or> (\<exists>l n zs. ys = Log l (Procesando n) # zs)"
  shows "failures_logged (xs @ ys)"
  using assms(1)
proof (induction xs)
  case Nil
  show ?case using assms(2) by simp
next
  case (Cons ev xs)
  show ?case
  proof (cases "raised_of ev")
    case None
    then show ?thesis using Cons by simp
  next
    case (Some e)
    then obtain m rest where r: "xs = Log ERROR m # rest" "msg_exn m = Some e"
        "quiet_until_next rest"
      using Cons.prems
      by (auto split: list.splits event.splits level.splits)
    have "quiet_until_next (rest @ ys)"
      using r(3) assms(3) by (rule quiet_until_next_append)
    then show ?thesis using Some r Cons by simp
  qed
qed

lemma extraction_log_observe:
  assumes "extraction_log xs"
  shows "observe visit_of xs = []" "observe fetch_of xs = []" "observe read_of xs = []"
    "observe stored_of xs = []" "observe write_of xs = []" "observe generated_of xs = []"
  using assms by (auto simp: extraction_log_def)

lemma extraction_log_failures:
  "extraction_log xs \<Longrightarrow> failures_logged (xs @ ys) = failures_logged ys"
  by (auto simp: extraction_log_def)

lemma step_visits:
  assumes "step_events env n s s' xs"
  shows "observe visit_of xs = [n]" "observe fetch_of xs = [url_of n]"
    "observe read_of xs = []" "set (observe generated_of xs) \<subseteq> {n}"
  using assms by (induction rule: step_events.induct) (simp_all add: extraction_log_observe)

lemma step_stores:
  assumes "step_events env n s s' xs"
  shows "(observe stored_of xs = [] \<and> s' = s \<and> observe write_of xs = [])
       \<or> (\<exists>js x f h. observe stored_of xs = [n] \<and> s' = py_setitem s n js \<and>
             observe write_of xs = [(output_file, s', x)] \<and>
             py_get js ''fields'' = Inr f \<and> truthy f \<and>
             x = write_json env h output_file s')"
  using assms
proof (induction rule: step_events.induct)
  case (stored xs ti js v h)
  then show ?case by (simp add: extraction_log_observe) metis
next
  case (stored_unwritten xs ti js v h w e)
  then show ?case by (simp add: extraction_log_observe) metis
qed (simp_all add: extraction_log_observe)

lemma step_failures:
  assumes "step_events env n s s' xs"
  shows "failures_logged xs \<and> (\<exists>zs. xs = Log INFO (Procesando n) # zs)"
  using assms
  by (induction rule: step_events.induct) (simp_all add: extraction_log_failures)

lemma run_visits:
  assumes "run_events env ns s s' xs"
  shows "observe visit_of xs = ns" "observe fetch_of xs = map url_of ns"
    "observe read_of xs = []"
  using assms
  by (induction rule: run_events.induct) (simp_all add: step_visits)

lemma run_generated:
  assumes "run_events env ns s s' xs"
  shows "set (observe generated_of xs) \<subseteq> set ns"
  using assms
proof (induction rule: run_events.induct)
  case (run_done s)
  show ?case by simp
next
  case (run_next n s s1 xs ns s2 ys)
  then show ?case using step_visits(4) [OF run_next.hyps(1)] by auto
qed

lemma run_failures:
  assumes "run_events env ns s s' xs"
  shows "failures_logged xs \<and> (xs = [] \<or> (\<exists>l n zs. xs = Log l (Procesando n) # zs))"
  using assms
proof (induction rule: run_events.induct)
  case (run_done s)
  show ?case by simp
next
  case (run_next n s s1 xs ns s2 ys)
  have "failures_logged (xs @ ys)"
    using step_failures [OF run_next.hyps(1)] run_next.IH
    by (intro failures_logged_append) simp_all
  moreover have "\<exists>l n zs. xs @ ys = Log l (Procesando n) # zs"
    using step_failures [OF run_next.hyps(1)] by auto
  ultimately show ?case by simp
qed

lemma run_stores:
  assumes "run_events env ns s s' xs"
  shows "\<exists>kvs. map fst kvs = observe stored_of xs \<and>
           map (\<lambda>(p, d, x). (p, d)) (observe write_of xs) = map (Pair output_file) (snapshots s kvs) \<and>
           s' = assign_all s kvs \<and>
           (\<forall>v \<in> set (map snd kvs). \<exists>f. py_get v ''fields'' = Inr f \<and> truthy f) \<and>
           ((\<forall>h p d. write_json env h p d = Written) \<longrightarrow>
              (\<forall>w \<in> set (observe write_of xs). snd (snd w) = Written))"
  using assms
proof (induction rule: run_events.induct)
  case (run_done s)
  show ?case by (rule exI [of _ "[]"]) simp
next
  case (run_next n s s1 xs ns s2 ys)
  from run_next.IH obtain kvs where k: "map fst kvs = observe stored_of ys"
      "map (\<lambda>(p, d, x). (p, d)) (observe write_of ys) = map (Pair output_file) (snapshots s1 kvs)"
      "s2 = assign_all s1 kvs"
      "\<forall>v \<in> set (map snd kvs). \<exists>f. py_get v ''fields'' = Inr f \<and> truthy f"
      "(\<forall>h p d. write_json env h p d = Written) \<longrightarrow>
              (\<forall>w \<in> set (observe write_of ys). snd (snd w) = Written)"
    by blast
  from step_stores [OF run_next.hyps(1)] show ?case
  proof (elim disjE exE conjE)
    assume "observe stored_of xs = []" "s1 = s" "observe write_of xs = []"
    then show ?thesis using k by (intro exI [of _ kvs]) simp
  next
    fix js x f h
    assume a: "observe stored_of xs = [n]" "s1 = py_setitem s n js"
      "observe write_of xs = [(output_file, s1, x)]" "py_get js ''fields'' = Inr f" "truthy f"
      "x = write_json env h output_file s1"
    show ?thesis using k a by (intro exI [of _ "(n, js) # kvs"]) auto
  qed
qed

lemma persisted_append:
  "persisted p (t @ xs) = foldl (apply_write p) (persisted p t) (observe write_of xs)"
  by (simp add: persisted_def)

lemma persisted_no_writes: "observe write_of xs = [] \<Longrightarrow> persisted p (t @ xs) = persisted p t"
  by (simp add: persisted_append)

lemma persisted_last_write:
  assumes "observe write_of xs \<noteq> []"
  shows "persisted p (t @ xs) =
           apply_write p (foldl (apply_write p) (persisted p t) (butlast (observe write_of xs)))
             (last (observe write_of xs))"
proof -
  have "observe write_of xs = butlast (observe write_of xs) @ [last (observe write_of xs)]"
    using assms by simp
  then have "foldl (apply_write p) (persisted p t) (observe write_of xs) =
      foldl (apply_write p) (persisted p t)
        (butlast (observe write_of xs) @ [last (observe write_of xs)])"
    by simp
  then show ?thesis
    by (simp only: persisted_append foldl_append foldl_Cons foldl_Nil)
qed

lemma last_write_snapshot:
  assumes "map (\<lambda>(p, d, x). (p, d)) ws = map (Pair q) (snapshots s kvs)" "ws \<noteq> []"
  shows "last ws = (q, assign_all s kvs, snd (snd (last ws)))"
proof -
  have ne: "snapshots s kvs \<noteq> []" using assms by auto
  have "(\<lambda>(p, d, x). (p, d)) (last ws) = last (map (\<lambda>(p, d, x). (p, d)) ws)"
    using assms(2) by (simp add: last_map)
  also have "\<dots> = (q, last (snapshots s kvs))"
    using assms(1) ne by (simp add: last_map)
  also have "last (snapshots s kvs) = assign_all s kvs"
    using last_snapshots [of s kvs] ne by simp
  finally show ?thesis by (cases "last ws") simp
qed

lemma persisted_after_run:
  assumes "map (\<lambda>(p, d, x). (p, d)) (observe write_of xs) = map (Pair q) (snapshots s kvs)"
    and "observe write_of xs \<noteq> []"
  shows "snd (snd (last (observe write_of xs))) = Written \<Longrightarrow>
           persisted q (t @ xs) = Some (assign_all s kvs)"
    and "snd (snd (last (observe write_of xs))) = Dump_failed e \<Longrightarrow>
           persisted q (t @ xs) = None"
proof -
  note l = last_write_snapshot [OF assms]
  note p = persisted_last_write [OF assms(2), of q t]
  show "snd (snd (last (observe write_of xs))) = Written \<Longrightarrow>
           persisted q (t @ xs) = Some (assign_all s kvs)"
    using l p by (metis apply_write.simps(1))
  show "snd (snd (last (observe write_of xs))) = Dump_failed e \<Longrightarrow>
           persisted q (t @ xs) = None"
    using l p by (metis apply_write.simps(3))
qed

lemma test_try_shape:
  "(\<exists>e. test_try env ti t = (Inl e, t @ [Generate ti (Some e)]))
   \<or> (\<exists>js w e. outcome_exn w = Some e \<and> test_try env ti t =
          (Inl e, t @ [Generate ti None, WriteJson test_output_file [(test_table, js)] w]))
   \<or> (\<exists>js. test_try env ti t =
          (Inr (), t @ [Generate ti None, WriteJson test_output_file [(test_table, js)] Written,
                        Log INFO (Prueba_completada test_output_file)]))"
proof -
  from generate_structure_shape [of env ti t] show ?thesis
  proof (elim disjE exE)
    fix e assume "generate_structure env ti t = (Inl e, t @ [Generate ti (Some e)])"
    then show ?thesis by (simp add: test_try_def)
  next
    fix js assume g: "generate_structure env ti t = (Inr js, t @ [Generate ti None])"
    let ?w = "write_json env (t @ [Generate ti None]) test_output_file [(test_table, js)]"
    show ?thesis
    proof (cases "outcome_exn ?w")
      case None
      then have "?w = Written" by (cases ?w) simp_all
      then show ?thesis using g by (simp add: test_try_def Let_def log_def)
    next
      case (Some e)
      then have "test_try env ti t =
          (Inl e, t @ [Generate ti None, WriteJson test_output_file [(test_table, js)] ?w])"
        using g by (simp add: test_try_def Let_def)
      with Some show ?thesis by blast
    qed
  qed
qed

lemma load_tables_acc:
  "load_tables ls acc =
     acc @ filter (\<lambda>n. n \<noteq> [] \<and> \<not> startswith n ''table_name'') (map clean_line ls)"
  by (induction ls arbitrary: acc) (simp_all add: Let_def)

lemma paths_differ: "test_output_file \<noteq> output_file"
  by (simp add: test_output_file_def output_file_def)

text \<open>
  C5. When the fetch for the test table TCURR yields no table info, or the generator raises
  on it, \<open>main\<close> returns right after an error record: the batch loop starts on no
  identifier, the input file is never read and no document is written.
\<close>

theorem smoke_failure_aborts:
  assumes "get_table_info env test_table
             (log INFO (Obteniendo_prueba test_table)
                (log INFO Iniciando_prueba (log INFO Iniciando_analisis t))) = (r, t1)"
    and "r = Inr None \<or> (\<exists>ti e. r = Inr (Some ti) \<and> generator env t1 ti = Inl e)"
  shows "\<exists>evs. main env t = (Inr (), t @ evs) \<and>
           observe visit_of evs = [] \<and> observe read_of evs = [] \<and> observe write_of evs = [] \<and>
           (last evs = Log ERROR No_se_pudo_obtener \<or>
            (\<exists>e. last evs = Log ERROR (Error_en_prueba e)))"
proof -
  let ?t0 = "log INFO (Obteniendo_prueba test_table)
                (log INFO Iniciando_prueba (log INFO Iniciando_analisis t))"
  from get_table_info_shape [of env test_table ?t0]
  show ?thesis
  proof (elim disjE exE conjE)
    fix e
    assume g: "get_table_info env test_table ?t0 =
       (Inr None, ?t0 @ [HttpGet (url_of test_table) (Some e),
                         Log ERROR (Error_obteniendo test_table e)])"
    show ?thesis
      using g by (simp add: main_def main_try_def log_def)
  next
    fix ti xs
    assume g: "get_table_info env test_table ?t0 =
        (Inr (Some ti), ?t0 @ HttpGet (url_of test_table) None # xs)"
      and x: "extraction_log xs"
    from g assms have r: "r = Inr (Some ti)" "t1 = ?t0 @ HttpGet (url_of test_table) None # xs"
      by simp_all
    with assms(2) obtain e where e: "generator env t1 ti = Inl e" by auto
    have "test_try env ti t1 = (Inl e, t1 @ [Generate ti (Some e)])"
      using e by (simp add: test_try_def generate_structure_def)
    then show ?thesis
      using g r(2) x
      by (simp add: main_def main_try_def log_def extraction_log_observe)
  qed
qed

lemma immediately_written_append:
  "immediately_written xs \<Longrightarrow> immediately_written ys \<Longrightarrow> immediately_written (xs @ ys)"
proof (induction xs)
  case Nil
  then show ?case by simp
next
  case (Cons ev xs)
  then show ?case
    by (cases "stored_of ev") (auto split: list.splits event.splits)
qed

lemma extraction_log_written:
  "extraction_log xs \<Longrightarrow> immediately_written (xs @ ys) = immediately_written ys"
  by (auto simp: extraction_log_def)

lemma step_written:
  assumes "step_events env n s s' xs"
  shows "immediately_written xs"
  using assms
  by (induction rule: step_events.induct) (simp_all add: extraction_log_written)

lemma run_written:
  assumes "run_events env ns s s' xs"
  shows "immediately_written xs"
  using assms
  by (induction rule: run_events.induct) (simp_all add: step_written immediately_written_append)

lemma run_stored_subset:
  assumes "run_events env ns s s' xs"
  shows "set (observe stored_of xs) \<subseteq> set ns"
  using assms
proof (induction rule: run_events.induct)
  case (run_done s)
  show ?case by simp
next
  case (run_next n s s1 xs ns s2 ys)
  then show ?case using step_stores [OF run_next.hyps(1)] by auto
qed

lemma field_json_inj: "field_json f = field_json g \<Longrightarrow> f = g"
  by (cases f, cases g) (simp add: field_json_def)

lemma map_field_json_inj: "map field_json fs = map field_json gs \<Longrightarrow> fs = gs"
proof (induction fs arbitrary: gs)
  case Nil
  then show ?case by simp
next
  case (Cons f fs)
  then show ?case by (cases gs) (auto dest: field_json_inj)
qed

text \<open>
  C1. For a table info with a non-empty field list, when the generator's output cannot be
  parsed as JSON (or is not text at all), the structure generated is the dict with
  \<open>name\<close> the table name, \<open>description\<close> the description and \<open>fields\<close> the fields of the
  table info, in the same order and with the same values; it passes the check on its
  fields and is stored under the identifier. The fields determine the list they come
  from, so nothing is lost.
\<close>

theorem fallback_is_lossless:
  assumes "fields_t ti \<noteq> []"
    and "generator env t ti = Inr out"
    and "(case out of None \<Rightarrow> None | Some s \<Rightarrow> json_loads env s) = None"
  shows "fst (generate_structure env ti t) =
           Inr (JDict [(''name'', JStr (table_name ti)),
                       (''description'', JStr (description ti)),
                       (''fields'', JList (map field_json (fields_t ti)))])
         \<and> fst (snd (process_try env n ti s t)) =
             py_setitem s n
               (JDict [(''name'', JStr (table_name ti)),
                       (''description'', JStr (description ti)),
                       (''fields'', JList (map field_json (fields_t ti)))])
         \<and> (\<forall>fs. map field_json fs = map field_json (fields_t ti) \<longrightarrow> fs = fields_t ti)"
proof -
  have g: "generate_structure env ti t = (Inr (fallback_structure ti), t @ [Generate ti None])"
    using assms(2,3) by (simp add: generate_structure_def)
  have "py_get (fallback_structure ti) ''fields'' = Inr (JList (map field_json (fields_t ti)))"
    by (simp add: fallback_structure_def)
  moreover have "truthy (JList (map field_json (fields_t ti)))"
    using assms(1) by simp
  ultimately have "fst (snd (process_try env n ti s t)) = py_setitem s n (fallback_structure ti)"
    using g by (simp add: process_try_def Let_def split: option.splits)
  then show ?thesis
    using g by (auto simp: fallback_structure_def dest: map_field_json_inj)
qed

lemma get_fields_try_snd: "get_fields_try env soup = (Inr fs, fs') \<Longrightarrow> fs' = fs"
  by (auto simp: get_fields_try_def split: sum.splits option.splits prod.splits)

lemma get_table_info_fetched:
  assumes "http_get env t (url_of n) = Inr soup"
  shows "get_table_info env n t =
     (Inr (Some \<lparr>table_name = n,
                 description = (case get_description_try env soup of Inl e \<Rightarrow> [] | Inr d \<Rightarrow> d),
                 fields_t = snd (get_fields_try env soup)\<rparr>),
      t @ HttpGet (url_of n) None #
        (case fst (get_fields_try env soup) of
           Inl e \<Rightarrow> [Log ERROR (Error_extrayendo e)]
         | Inr fs \<Rightarrow> []))"
proof -
  let ?t1 = "t @ [HttpGet (url_of n) None]"
  have d: "get_description env soup =
      Inr (case get_description_try env soup of Inl e \<Rightarrow> [] | Inr d \<Rightarrow> d)"
    by (cases "get_description_try env soup") (simp_all add: get_description_def)
  have f: "get_fields env soup ?t1 =
      (Inr (snd (get_fields_try env soup)),
       ?t1 @ (case fst (get_fields_try env soup) of
                Inl e \<Rightarrow> [Log ERROR (Error_extrayendo e)]
              | Inr fs \<Rightarrow> []))"
  proof (cases "get_fields_try env soup")
    case (Pair r fs')
    show ?thesis
    proof (cases r)
      case (Inl e)
      with Pair show ?thesis by (simp add: get_fields_def log_def)
    next
      case (Inr fs)
      with Pair have "fs' = fs" using get_fields_try_snd [of env soup fs fs'] by simp
      with Pair Inr show ?thesis by (simp add: get_fields_def)
    qed
  qed
  have "get_table_info_try env n t =
     (Inr (Some \<lparr>table_name = n,
                 description = (case get_description_try env soup of Inl e \<Rightarrow> [] | Inr d \<Rightarrow> d),
                 fields_t = snd (get_fields_try env soup)\<rparr>),
      ?t1 @ (case fst (get_fields_try env soup) of
                Inl e \<Rightarrow> [Log ERROR (Error_extrayendo e)]
              | Inr fs \<Rightarrow> []))"
    by (simp add: get_table_info_try_def Let_def assms d f)
  then show ?thesis by (simp add: get_table_info_def)
qed

lemma process_one_goes_on:
  assumes "get_table_info env n (log INFO (Procesando n) h) = (Inr (Some ti), t1)"
    and "fields_t ti \<noteq> []"
  shows "\<exists>x ys. snd (process_one env n s h) = t1 @ Generate ti x # ys"
proof -
  have "\<exists>r s' x ys. process_try env n ti s t1 = (r, s', t1 @ Generate ti x # ys)"
    using generate_structure_shape [of env ti t1]
    by (auto simp: process_try_def Let_def log_def split: sum.splits option.splits)
  then obtain r s' x ys where "process_try env n ti s t1 = (r, s', t1 @ Generate ti x # ys)"
    by blast
  then show ?thesis
    using assms by (cases r) (simp_all add: process_one_def log_def)
qed

lemma fallback_step:
  assumes "get_table_info env n (log INFO (Procesando n) h) = (Inr (Some ti), t1)"
    and "fields_t ti \<noteq> []"
    and "generator env t1 ti = Inr out"
    and "(case out of None \<Rightarrow> None | Some x \<Rightarrow> json_loads env x) = None"
  shows "process_one env n s h =
     (let structures' = py_setitem s n (fallback_structure ti);
          w = write_json env (t1 @ [Generate ti None, Log INFO (Estructura_generada n)])
                output_file structures'
      in (Inr structures',
          t1 @ [Generate ti None, Log INFO (Estructura_generada n),
                WriteJson output_file structures' w] @
            (case outcome_exn w of None \<Rightarrow> [] | Some e \<Rightarrow> [Log ERROR (Error_generando n e)])))"
proof -
  have g: "generate_structure env ti t1 = (Inr (fallback_structure ti), t1 @ [Generate ti None])"
    using assms(3,4) by (simp add: generate_structure_def)
  have f: "py_get (fallback_structure ti) ''fields'' = Inr (JList (map field_json (fields_t ti)))"
    by (simp add: fallback_structure_def)
  have tr: "truthy (JList (map field_json (fields_t ti)))"
    using assms(2) by simp
  show ?thesis
    using assms(1,2) g f tr
    by (simp add: process_one_def process_try_def Let_def log_def split: option.splits)
qed

lemma get_error_logged:
  assumes "get_table_info env n (log INFO (Procesando n) h) = (Inr (Some ti), t1)"
    and "fields_t ti \<noteq> []"
    and "generate_structure env ti t1 = (Inr js, t2)"
    and "py_get js ''fields'' = Inl e"
  shows "process_one env n s h = (Inr s, t2 @ [Log ERROR (Error_generando n e)])"
  using assms by (simp add: process_one_def process_try_def log_def)

text \<open>
  C3, as amended. No exception leaves \<open>process_tables\<close>: it always returns its
  \<open>structures\<close>, after starting on every identifier in input order. A failed HTTP
  request, generator call or write is followed at once by an error record carrying its
  exception, and nothing but log records follows until the loop starts on the next
  identifier. When the page is fetched, an exception in \<open>_get_description\<close> leaves no
  record and gives the empty description, and an exception in the \<open>try\<close> block of
  \<open>_get_fields\<close> leaves one error record and gives the fields read so far; with a
  non-empty field list the step goes on to call the generator with this table info. When
  the generator's output cannot be parsed, the step leaves no error record for it and
  stores and writes the fallback structure. When \<open>.get\<close> raises on the value parsed, the
  step ends with an error record of that exception and leaves \<open>structures\<close> as it was.
\<close>

theorem batch_never_raises:
  "(\<exists>s' evs. process_tables env names t = (Inr s', t @ evs) \<and>
      observe visit_of evs = names \<and> failures_logged evs)
   \<and> (\<forall>n h soup.
         http_get env (log INFO (Procesando n) h) (url_of n) = Inr soup \<longrightarrow>
         get_table_info env n (log INFO (Procesando n) h) =
           (Inr (Some \<lparr>table_name = n,
                       description =
                         (case get_description_try env soup of Inl e \<Rightarrow> [] | Inr d \<Rightarrow> d),
                       fields_t = snd (get_fields_try env soup)\<rparr>),
            log INFO (Procesando n) h @ HttpGet (url_of n) None #
              (case fst (get_fields_try env soup) of
                 Inl e \<Rightarrow> [Log ERROR (Error_extrayendo e)]
               | Inr fs \<Rightarrow> [])))
   \<and> (\<forall>n s h ti t1.
         get_table_info env n (log INFO (Procesando n) h) = (Inr (Some ti), t1) \<and>
         fields_t ti \<noteq> [] \<longrightarrow>
         (\<exists>x ys. snd (process_one env n s h) = t1 @ Generate ti x # ys))
   \<and> (\<forall>n s h ti t1 out.
         get_table_info env n (log INFO (Procesando n) h) = (Inr (Some ti), t1) \<and>
         fields_t ti \<noteq> [] \<and> generator env t1 ti = Inr out \<and>
         (case out of None \<Rightarrow> None | Some x \<Rightarrow> json_loads env x) = None \<longrightarrow>
         process_one env n s h =
           (let structures' = py_setitem s n (fallback_structure ti);
                w = write_json env (t1 @ [Generate ti None, Log INFO (Estructura_generada n)])
                      output_file structures'
            in (Inr structures',
                t1 @ [Generate ti None, Log INFO (Estructura_generada n),
                      WriteJson output_file structures' w] @
                  (case outcome_exn w of
                     None \<Rightarrow> []
                   | Some e \<Rightarrow> [Log ERROR (Error_generando n e)]))))
   \<and> (\<forall>n s h ti t1 js t2 e.
         get_table_info env n (log INFO (Procesando n) h) = (Inr (Some ti), t1) \<and>
         fields_t ti \<noteq> [] \<and> generate_structure env ti t1 = (Inr js, t2) \<and>
         py_get js ''fields'' = Inl e \<longrightarrow>
         process_one env n s h = (Inr s, t2 @ [Log ERROR (Error_generando n e)]))"
proof (intro conjI allI impI)
  obtain s' xs where r: "process_loop env names [] t = (Inr s', t @ xs)"
      "run_events env names [] s' xs"
    using process_loop_run [of env names "[]" t] by blast
  show "\<exists>s' evs. process_tables env names t = (Inr s', t @ evs) \<and>
      observe visit_of evs = names \<and> failures_logged evs"
    using r run_visits(1) [OF r(2)] run_failures [OF r(2)]
    by (auto simp: process_tables_def)
next
  fix n h soup
  assume "http_get env (log INFO (Procesando n) h) (url_of n) = Inr soup"
  then show "get_table_info env n (log INFO (Procesando n) h) =
           (Inr (Some \<lparr>table_name = n,
                       description =
                         (case get_description_try env soup of Inl e \<Rightarrow> [] | Inr d \<Rightarrow> d),
                       fields_t = snd (get_fields_try env soup)\<rparr>),
            log INFO (Procesando n) h @ HttpGet (url_of n) None #
              (case fst (get_fields_try env soup) of
                 Inl e \<Rightarrow> [Log ERROR (Error_extrayendo e)]
               | Inr fs \<Rightarrow> []))"
    by (rule get_table_info_fetched)
next
  fix n s h ti t1
  assume "get_table_info env n (log INFO (Procesando n) h) = (Inr (Some ti), t1) \<and>
         fields_t ti \<noteq> []"
  then show "\<exists>x ys. snd (process_one env n s h) = t1 @ Generate ti x # ys"
    using process_one_goes_on [of env n h ti t1 s] by simp
next
  fix n s h ti t1 out
  assume "get_table_info env n (log INFO (Procesando n) h) = (Inr (Some ti), t1) \<and>
         fields_t ti \<noteq> [] \<and> generator env t1 ti = Inr out \<and>
         (case out of None \<Rightarrow> None | Some x \<Rightarrow> json_loads env x) = None"
  then show "process_one env n s h =
           (let structures' = py_setitem s n (fallback_structure ti);
                w = write_json env (t1 @ [Generate ti None, Log INFO (Estructura_generada n)])
                      output_file structures'
            in (Inr structures',
                t1 @ [Generate ti None, Log INFO (Estructura_generada n),
                      WriteJson output_file structures' w] @
                  (case outcome_exn w of
                     None \<Rightarrow> []
                   | Some e \<Rightarrow> [Log ERROR (Error_generando n e)])))"
    using fallback_step [of env n h ti t1 out s] by simp
next
  fix n s h ti t1 js t2 e
  assume "get_table_info env n (log INFO (Procesando n) h) = (Inr (Some ti), t1) \<and>
         fields_t ti \<noteq> [] \<and> generate_structure env ti t1 = (Inr js, t2) \<and>
         py_get js ''fields'' = Inl e"
  then show "process_one env n s h = (Inr s, t2 @ [Log ERROR (Error_generando n e)])"
    using get_error_logged [of env n h ti t1 js t2 e s] by simp
qed

text \<open>
  C4, as amended. From any state of the loop: every record that an identifier was stored is
  followed at once by a write of the whole dict \<open>structures\<close> to the output file, and
  there is no other write, so the documents written are the successive states of the
  dict. The keys of the dict never shrink. If no identifier is stored, nothing is written,
  and the dict and the document on disk are as before. If the last write succeeded, the
  document on disk is the whole final dict; if it raised after opening the file, no
  document is left on disk. Starting from the empty dict, the number of entries is the
  number of distinct stored identifiers, which is the number of stored identifiers only
  when these are pairwise distinct.
\<close>

theorem snapshot_after_each_success:
  "\<exists>s' evs kvs. process_loop env names s t = (Inr s', t @ evs)
     \<and> map fst kvs = observe stored_of evs
     \<and> immediately_written evs
     \<and> map (\<lambda>(p, d, x). (p, d)) (observe write_of evs) = map (Pair output_file) (snapshots s kvs)
     \<and> s' = assign_all s kvs
     \<and> set (map fst s) \<subseteq> set (map fst s')
     \<and> (observe stored_of evs = [] \<longrightarrow>
          s' = s \<and> observe write_of evs = [] \<and>
          persisted output_file (t @ evs) = persisted output_file t)
     \<and> (observe stored_of evs \<noteq> [] \<and> snd (snd (last (observe write_of evs))) = Written \<longrightarrow>
          persisted output_file (t @ evs) = Some s')
     \<and> (\<forall>e. observe stored_of evs \<noteq> [] \<and>
              snd (snd (last (observe write_of evs))) = Dump_failed e \<longrightarrow>
          persisted output_file (t @ evs) = None)
     \<and> (s = [] \<longrightarrow> length s' = card (set (observe stored_of evs)))
     \<and> (s = [] \<and> distinct (observe stored_of evs) \<longrightarrow>
          length s' = length (observe stored_of evs))"
proof -
  obtain s' xs where r: "process_loop env names s t = (Inr s', t @ xs)"
      "run_events env names s s' xs"
    using process_loop_run [of env names s t] by blast
  from run_stores [OF r(2)] obtain kvs where k: "map fst kvs = observe stored_of xs"
      "map (\<lambda>(p, d, x). (p, d)) (observe write_of xs) = map (Pair output_file) (snapshots s kvs)"
      "s' = assign_all s kvs"
    by blast
  have sub: "set (map fst s) \<subseteq> set (map fst s')"
    using k(3) by (simp only: keys_assign_all) simp
  have none: "observe stored_of xs = [] \<longrightarrow>
          s' = s \<and> observe write_of xs = [] \<and>
          persisted output_file (t @ xs) = persisted output_file t"
  proof
    assume "observe stored_of xs = []"
    with k(1) have e: "kvs = []" by simp
    with k(2) have "observe write_of xs = []" by simp
    then show "s' = s \<and> observe write_of xs = [] \<and>
          persisted output_file (t @ xs) = persisted output_file t"
      using k(3) e by (simp add: persisted_no_writes)
  qed
  have ne: "observe stored_of xs \<noteq> [] \<Longrightarrow> observe write_of xs \<noteq> []"
  proof -
    assume "observe stored_of xs \<noteq> []"
    with k(1) have "kvs \<noteq> []" by auto
    then have "snapshots s kvs \<noteq> []" by (cases kvs) auto
    with k(2) show "observe write_of xs \<noteq> []" by auto
  qed
  have some: "observe stored_of xs \<noteq> [] \<and> snd (snd (last (observe write_of xs))) = Written \<longrightarrow>
          persisted output_file (t @ xs) = Some s'"
    using persisted_after_run(1) [OF k(2)] ne k(3) by simp
  have lost: "\<forall>e. observe stored_of xs \<noteq> [] \<and>
              snd (snd (last (observe write_of xs))) = Dump_failed e \<longrightarrow>
          persisted output_file (t @ xs) = None"
    using persisted_after_run(2) [OF k(2)] ne by simp
  have cnt: "s = [] \<longrightarrow> length s' = card (set (observe stored_of xs))"
    using k(1,3) length_assign_all [of kvs] by auto
  have cnt': "s = [] \<and> distinct (observe stored_of xs) \<longrightarrow>
          length s' = length (observe stored_of xs)"
    using cnt by (auto simp: distinct_card)
  show ?thesis
    using r(1) k(1,2,3) run_written [OF r(2)] sub none some lost cnt cnt' by blast
qed

text \<open>
  C9. The URLs requested are the base URL followed by the lowercased identifier and
  \<open>.html\<close>, one per identifier in input order, while the table info handed to the
  generator, the keys of \<open>structures\<close> and the name in the fallback structure carry the
  identifier as given. So for two identifiers that differ only in letter case and are
  both stored, the same URL is requested twice and \<open>structures\<close> has one entry for each.
\<close>

theorem url_lowercased_key_verbatim:
  "\<exists>s' evs. process_tables env names t = (Inr s', t @ evs)
     \<and> observe fetch_of evs = map (\<lambda>n. BASE_URL @ py_lower n @ ''.html'') names
     \<and> set (observe generated_of evs) \<subseteq> set names
     \<and> set (map fst s') = set (observe stored_of evs)
     \<and> set (observe stored_of evs) \<subseteq> set names
     \<and> (\<forall>ti. py_get (fallback_structure ti) ''name'' = Inr (JStr (table_name ti)))
     \<and> (\<forall>a b. names = [a, b] \<and> a \<noteq> b \<and> py_lower a = py_lower b \<and>
               observe stored_of evs = [a, b] \<longrightarrow>
          observe fetch_of evs =
            [BASE_URL @ py_lower a @ ''.html'', BASE_URL @ py_lower a @ ''.html''] \<and>
          map fst s' = [a, b])"
proof -
  obtain s' xs where r: "process_loop env names [] t = (Inr s', t @ xs)"
      "run_events env names [] s' xs"
    using process_loop_run [of env names "[]" t] by blast
  from run_stores [OF r(2)] obtain kvs where k: "map fst kvs = observe stored_of xs"
      "s' = assign_all [] kvs"
    by blast
  have f: "observe fetch_of xs = map (\<lambda>n. BASE_URL @ py_lower n @ ''.html'') names"
    using run_visits(2) [OF r(2)] by (simp add: url_of_def [abs_def])
  have keys: "set (map fst s') = set (observe stored_of xs)"
    using k by (simp only: keys_assign_all) simp
  have two: "\<forall>a b. names = [a, b] \<and> a \<noteq> b \<and> py_lower a = py_lower b \<and>
               observe stored_of xs = [a, b] \<longrightarrow>
          observe fetch_of xs =
            [BASE_URL @ py_lower a @ ''.html'', BASE_URL @ py_lower a @ ''.html''] \<and>
          map fst s' = [a, b]"
  proof (intro allI impI)
    fix a b
    assume h: "names = [a, b] \<and> a \<noteq> b \<and> py_lower a = py_lower b \<and>
               observe stored_of xs = [a, b]"
    then obtain va vb where "kvs = [(a, va), (b, vb)]"
      using k(1) by (cases kvs) auto
    then have "map fst s' = [a, b]"
      using k(2) h by (simp add: keys_py_setitem)
    then show "observe fetch_of xs =
            [BASE_URL @ py_lower a @ ''.html'', BASE_URL @ py_lower a @ ''.html''] \<and>
          map fst s' = [a, b]"
      using f h by simp
  qed
  have nm: "\<forall>ti. py_get (fallback_structure ti) ''name'' = Inr (JStr (table_name ti))"
    by (simp add: fallback_structure_def)
  show ?thesis
    using r(1) f run_generated [OF r(2)] keys run_stored_subset [OF r(2)] nm two
    by (simp add: process_tables_def)
qed


lemma main_batch_no_input:
  assumes "read_lines env t input_file = Inl FileNotFoundError \<or>
           (\<exists>ls. read_lines env t input_file = Inr ls \<and> load_tables ls [] = [])"
  shows "main_batch env t =
           (Inl FileNotFoundError, t @ [ReadLines input_file (Some FileNotFoundError)])
       \<or> main_batch env t =
           (Inr Returned, t @ [ReadLines input_file None, Log ERROR Archivo_vacio])"
  using assms by (auto simp: main_batch_def Let_def log_def)

lemma main_try_prefix:
  "\<exists>pre. observe visit_of pre = [] \<and> observe fetch_of pre = [url_of test_table] \<and>
         observe read_of pre = [] \<and>
         (\<forall>w \<in> set (observe write_of pre). fst w = test_output_file) \<and>
         (main_try env t = (Inr Returned, t @ pre) \<or> main_try env t = main_batch env (t @ pre))"
proof -
  let ?t0 = "log INFO (Obteniendo_prueba test_table) (log INFO Iniciando_prueba t)"
  from get_table_info_shape [of env test_table ?t0]
  show ?thesis
  proof (elim disjE exE conjE)
    fix e
    assume g: "get_table_info env test_table ?t0 =
       (Inr None, ?t0 @ [HttpGet (url_of test_table) (Some e),
                         Log ERROR (Error_obteniendo test_table e)])"
    show ?thesis
      by (rule exI [of _ "[Log INFO Iniciando_prueba, Log INFO (Obteniendo_prueba test_table),
            HttpGet (url_of test_table) (Some e), Log ERROR (Error_obteniendo test_table e),
            Log ERROR No_se_pudo_obtener]"])
         (use g in \<open>simp add: main_try_def log_def\<close>)
  next
    fix ti xs
    assume g: "get_table_info env test_table ?t0 =
        (Inr (Some ti), ?t0 @ HttpGet (url_of test_table) None # xs)"
      and x: "extraction_log xs"
    let ?t1 = "?t0 @ HttpGet (url_of test_table) None # xs"
    let ?p = "[Log INFO Iniciando_prueba, Log INFO (Obteniendo_prueba test_table),
            HttpGet (url_of test_table) None] @ xs"
    from test_try_shape [of env ti ?t1]
    show ?thesis
    proof (elim disjE exE)
      fix e assume tt: "test_try env ti ?t1 = (Inl e, ?t1 @ [Generate ti (Some e)])"
      show ?thesis
        by (rule exI [of _ "?p @ [Generate ti (Some e), Log ERROR (Error_en_prueba e)]"])
           (use g tt x in \<open>simp add: main_try_def log_def extraction_log_observe\<close>)
    next
      fix js w e assume tt: "outcome_exn w = Some e \<and> test_try env ti ?t1 =
          (Inl e, ?t1 @ [Generate ti None, WriteJson test_output_file [(test_table, js)] w])"
      show ?thesis
        by (rule exI [of _ "?p @ [Generate ti None,
              WriteJson test_output_file [(test_table, js)] w,
              Log ERROR (Error_en_prueba e)]"])
           (use g tt x in \<open>simp add: main_try_def log_def extraction_log_observe\<close>)
    next
      fix js assume tt: "test_try env ti ?t1 =
          (Inr (), ?t1 @ [Generate ti None, WriteJson test_output_file [(test_table, js)] Written,
                        Log INFO (Prueba_completada test_output_file)])"
      show ?thesis
        by (rule exI [of _ "?p @ [Generate ti None,
              WriteJson test_output_file [(test_table, js)] Written,
              Log INFO (Prueba_completada test_output_file),
              Log INFO Fin_de_prueba, Log INFO Iniciando_proceso]"])
           (use g tt x in \<open>simp add: main_try_def log_def extraction_log_observe\<close>)
    qed
  qed
qed

text \<open>
  C8, as amended. The identifiers loaded are the lines, each trimmed of whitespace, then of
  surrounding double quotes and commas, then of whitespace again, without the lines that
  are empty after trimming and without the lines that then start with \<open>table_name\<close>.
  When the input file is missing or the list loaded is empty, \<open>main\<close> returns without
  starting the batch loop on any identifier: the only request is the one for the test
  table and nothing is written to the output file.
\<close>

theorem input_list_loading:
  "load_tables lines [] =
     filter (\<lambda>n. n \<noteq> [] \<and> \<not> startswith n ''table_name'') (map clean_line lines)
   \<and> ((\<forall>h. read_lines env h input_file = Inl FileNotFoundError \<or>
            (\<exists>ls. read_lines env h input_file = Inr ls \<and> load_tables ls [] = [])) \<longrightarrow>
        (\<exists>evs. main env t = (Inr (), t @ evs) \<and> observe visit_of evs = [] \<and>
           observe fetch_of evs = [url_of test_table] \<and>
           (\<forall>w \<in> set (observe write_of evs). fst w \<noteq> output_file)))"
proof (intro conjI impI)
  show "load_tables lines [] =
     filter (\<lambda>n. n \<noteq> [] \<and> \<not> startswith n ''table_name'') (map clean_line lines)"
    by (simp add: load_tables_acc)
next
  assume h: "\<forall>h. read_lines env h input_file = Inl FileNotFoundError \<or>
            (\<exists>ls. read_lines env h input_file = Inr ls \<and> load_tables ls [] = [])"
  let ?t = "log INFO Iniciando_analisis t"
  obtain pre where p: "observe visit_of pre = []" "observe fetch_of pre = [url_of test_table]"
      "\<forall>w \<in> set (observe write_of pre). fst w = test_output_file"
      "main_try env ?t = (Inr Returned, ?t @ pre) \<or> main_try env ?t = main_batch env (?t @ pre)"
    using main_try_prefix [of env ?t] by blast
  have w: "\<forall>w \<in> set (observe write_of pre). fst w \<noteq> output_file"
    using p(3) paths_differ by auto
  from p(4) show "\<exists>evs. main env t = (Inr (), t @ evs) \<and> observe visit_of evs = [] \<and>
           observe fetch_of evs = [url_of test_table] \<and>
           (\<forall>w \<in> set (observe write_of evs). fst w \<noteq> output_file)"
  proof
    assume "main_try env ?t = (Inr Returned, ?t @ pre)"
    then show ?thesis
      using p(1,2) w
      by (intro exI [of _ "Log INFO Iniciando_analisis # pre"]) (simp add: main_def log_def)
  next
    assume m: "main_try env ?t = main_batch env (?t @ pre)"
    from main_batch_no_input [of env "?t @ pre"] h
    have "main_batch env (?t @ pre) =
           (Inl FileNotFoundError, (?t @ pre) @ [ReadLines input_file (Some FileNotFoundError)])
       \<or> main_batch env (?t @ pre) =
           (Inr Returned, (?t @ pre) @ [ReadLines input_file None, Log ERROR Archivo_vacio])"
      by blast
    then show ?thesis
    proof
      assume "main_batch env (?t @ pre) =
           (Inl FileNotFoundError, (?t @ pre) @ [ReadLines input_file (Some FileNotFoundError)])"
      then show ?thesis
        using m p(1,2) w
        by (intro exI [of _ "Log INFO Iniciando_analisis # pre @
              [ReadLines input_file (Some FileNotFoundError), Log ERROR No_se_encontro_archivo,
               Log INFO Proceso_finalizado]"]) (simp add: main_def log_def)
    next
      assume "main_batch env (?t @ pre) =
           (Inr Returned, (?t @ pre) @ [ReadLines input_file None, Log ERROR Archivo_vacio])"
      then show ?thesis
        using m p(1,2) w
        by (intro exI [of _ "Log INFO Iniciando_analisis # pre @
              [ReadLines input_file None, Log ERROR Archivo_vacio]"]) (simp add: main_def log_def)
    qed
  qed
qed

lemma set_py_setitem: "set (py_setitem d k v) \<subseteq> insert (k, v) (set d)"
  by (induction d) (auto split: if_splits)

lemma snapshots_entries: "d' \<in> set (snapshots d kvs) \<Longrightarrow> set d' \<subseteq> set d \<union> set kvs"
proof (induction d kvs rule: snapshots.induct)
  case (1 d)
  then show ?case by simp
next
  case (2 d k v kvs)
  show ?case
  proof (cases "d' = py_setitem d k v")
    case True
    then show ?thesis using set_py_setitem [of d k v] by auto
  next
    case False
    with 2 have "set d' \<subseteq> set (py_setitem d k v) \<union> set kvs" by simp
    then show ?thesis using set_py_setitem [of d k v] by auto
  qed
qed

text \<open>
  The batch side of C2: every entry of every document the batch loop writes has a
  \<open>fields\<close> value that Python takes as true, so a field list in it is never empty.
\<close>

lemma batch_documents_have_fields:
  "\<exists>s' evs. process_tables env names t = (Inr s', t @ evs) \<and>
     (\<forall>w \<in> set (observe write_of evs). \<forall>e \<in> set (fst (snd w)).
        \<exists>f. py_get (snd e) ''fields'' = Inr f \<and> truthy f)"
proof -
  obtain s' xs where r: "process_loop env names [] t = (Inr s', t @ xs)"
      "run_events env names [] s' xs"
    using process_loop_run [of env names "[]" t] by blast
  from run_stores [OF r(2)] obtain kvs where
      k: "map (\<lambda>(p, d, x). (p, d)) (observe write_of xs) = map (Pair output_file) (snapshots [] kvs)"
      and v: "\<forall>v \<in> set (map snd kvs). \<exists>f. py_get v ''fields'' = Inr f \<and> truthy f"
    by blast
  have "\<forall>w \<in> set (observe write_of xs). \<forall>e \<in> set (fst (snd w)).
        \<exists>f. py_get (snd e) ''fields'' = Inr f \<and> truthy f"
  proof (intro ballI)
    fix w e assume w: "w \<in> set (observe write_of xs)" and e: "e \<in> set (fst (snd w))"
    have "map (\<lambda>w. fst (snd w)) (observe write_of xs) =
          map snd (map (\<lambda>(p, d, x). (p, d)) (observe write_of xs))"
      by (simp add: case_prod_beta)
    also have "\<dots> = snapshots [] kvs"
      by (simp only: k) (simp add: comp_def)
    finally have "set (snapshots [] kvs) = (\<lambda>w. fst (snd w)) ` set (observe write_of xs)"
      by (metis set_map)
    then have "fst (snd w) \<in> set (snapshots [] kvs)"
      using w by simp
    then have "set (fst (snd w)) \<subseteq> set kvs"
      using snapshots_entries [of "fst (snd w)" "[]" kvs] by simp
    with e have "snd e \<in> set (map snd kvs)" by auto
    with v show "\<exists>f. py_get (snd e) ''fields'' = Inr f \<and> truthy f" by blast
  qed
  then show ?thesis using r(1) by (auto simp: process_tables_def)
qed

section \<open>Concrete runs\<close>

text \<open>
  C2, a run of the code. The page of TCURR has a heading and no table and the generator's
  output is not JSON: the test with TCURR writes to its output file a structure whose
  field list is empty, where the batch loop, on the same page, stores and writes nothing.
  The same happens when the page is complete and the generator answers a JSON object with
  an empty field list.
\<close>

theorem smoke_test_persists_empty_schema:
  "persisted test_output_file
     (snd (main (tree_env [(url_of ''TCURR'', bare_page)] [Some ''not json''] [] [] None) [])) =
   Some [(''TCURR'',
          JDict [(''name'', JStr ''TCURR''),
                 (''description'', JStr ''Currency Exchange Rates''),
                 (''fields'', JList [])])]
   \<and> process_tables (tree_env [(url_of ''TCURR'', bare_page)] [Some ''not json''] [] [] None)
       [''TCURR''] [] =
     (Inr [], [Log INFO (Procesando ''TCURR''),
               HttpGet ''https://leanx.eu/en/sap/table/tcurr.html'' None,
               Log INFO (No_tiene_campos ''TCURR'')])
   \<and> persisted test_output_file
       (snd (main (tree_env site [Some (CHR ''{'' # CHR 0x22 # ''fields'' @ CHR 0x22 # '': []}'')]
                     [((CHR ''{'' # CHR 0x22 # ''fields'' @ CHR 0x22 # '': []}''), JDict [(''fields'', JList [])])] [] None) [])) =
     Some [(''TCURR'', JDict [(''fields'', JList [])])]
   \<and> observe stored_of
       (snd (process_tables (tree_env site [Some (CHR ''{'' # CHR 0x22 # ''fields'' @ CHR 0x22 # '': []}'')]
                     [((CHR ''{'' # CHR 0x22 # ''fields'' @ CHR 0x22 # '': []}''), JDict [(''fields'', JList [])])] [] None)
          [''TCURR''] [])) = []"
  by code_simp

text \<open>C1 on the first page, with a generator that answers \<open>not json\<close>.\<close>

theorem fallback_is_lossless_witness:
  "fields_t tcurr_info \<noteq> []
   \<and> generator (tree_env site [Some ''not json''] [] [] None) [] tcurr_info = Inr (Some ''not json'')
   \<and> json_loads (tree_env site [Some ''not json''] [] [] None) ''not json'' = None
   \<and> fst (generate_structure (tree_env site [Some ''not json''] [] [] None) tcurr_info []) =
       Inr (JDict [(''name'', JStr ''TCURR''),
                   (''description'', JStr ''Currency Exchange Rates''),
                   (''fields'', JList (map field_json (fields_t tcurr_info)))])"
proof -
  let ?E = "tree_env site [Some ''not json''] [] [] None"
  have h1: "fields_t tcurr_info \<noteq> []" by (simp add: tcurr_info_def)
  have h2: "generator ?E [] tcurr_info = Inr (Some ''not json'')" by (simp add: tree_env_def)
  have h3: "(case Some ''not json'' of None \<Rightarrow> None | Some s \<Rightarrow> json_loads ?E s) = None"
    by (simp add: tree_env_def)
  show ?thesis
    using h1 h2 h3 fallback_is_lossless [OF h1 h2 h3, of "[]" "[]"]
    by (simp add: tcurr_info_def)
qed

text \<open>
  C3 as first stated fails on a page with a table and no heading, with a generator whose
  output is not JSON: \<open>.text\<close> on \<open>None\<close> raises in \<open>_get_description\<close> and
  \<open>json.loads\<close> raises, the run has no error record at all, and the loop does not go on
  to the next identifier, it stores this one.
\<close>

theorem silent_exceptions_counterexample:
  "json_loads (tree_env site [Some ''not json''] [] [] None) ''not json'' = None
   \<and> get_description_try (tree_env site [Some ''not json''] [] [] None) untitled_page
       = Inl AttributeError
   \<and> observe error_of
        (snd (process_tables (tree_env site [Some ''not json''] [] [] None) [''T001''] [])) = []
   \<and> observe stored_of
        (snd (process_tables (tree_env site [Some ''not json''] [] [] None) [''T001''] []))
       = [''T001'']"
  by code_simp

text \<open>
  C3 as amended, on the page that has no heading and an unreadable cell, with a generator
  whose output is not JSON, and on a generator whose output parses to a JSON list.
\<close>

theorem batch_never_raises_witness:
  "http_get (tree_env site [Some ''not json''] [] [] None)
      (log INFO (Procesando ''BAD'') []) (url_of ''BAD'') = Inr faulty_page
   \<and> get_description_try (tree_env site [Some ''not json''] [] [] None) faulty_page
       = Inl AttributeError
   \<and> get_fields_try (tree_env site [Some ''not json''] [] [] None) faulty_page
       = (Inl (Exception ''unreadable''), fields_t bad_info)
   \<and> get_table_info (tree_env site [Some ''not json''] [] [] None) ''BAD''
         (log INFO (Procesando ''BAD'') []) =
       (Inr (Some bad_info),
        [Log INFO (Procesando ''BAD''),
         HttpGet ''https://leanx.eu/en/sap/table/bad.html'' None,
         Log ERROR (Error_extrayendo (Exception ''unreadable''))])
   \<and> fields_t bad_info \<noteq> []
   \<and> (\<exists>x ys. snd (process_one (tree_env site [Some ''not json''] [] [] None) ''BAD'' [] []) =
         [Log INFO (Procesando ''BAD''),
          HttpGet ''https://leanx.eu/en/sap/table/bad.html'' None,
          Log ERROR (Error_extrayendo (Exception ''unreadable''))] @ Generate bad_info x # ys)
   \<and> generator (tree_env site [Some ''not json''] [] [] None)
         [Log INFO (Procesando ''BAD''),
          HttpGet ''https://leanx.eu/en/sap/table/bad.html'' None,
          Log ERROR (Error_extrayendo (Exception ''unreadable''))] bad_info
       = Inr (Some ''not json'')
   \<and> json_loads (tree_env site [Some ''not json''] [] [] None) ''not json'' = None
   \<and> process_one (tree_env site [Some ''not json''] [] [] None) ''BAD'' [] [] =
       (Inr [(''BAD'', fallback_structure bad_info)],
        [Log INFO (Procesando ''BAD''),
         HttpGet ''https://leanx.eu/en/sap/table/bad.html'' None,
         Log ERROR (Error_extrayendo (Exception ''unreadable'')),
         Generate bad_info None,
         Log INFO (Estructura_generada ''BAD''),
         WriteJson output_file [(''BAD'', fallback_structure bad_info)] Written])
   \<and> get_table_info (tree_env site [Some ''[]''] [(''[]'', JList [])] [] None) ''TCURR''
         (log INFO (Procesando ''TCURR'') []) =
       (Inr (Some tcurr_info),
        [Log INFO (Procesando ''TCURR''),
         HttpGet ''https://leanx.eu/en/sap/table/tcurr.html'' None])
   \<and> fields_t tcurr_info \<noteq> []
   \<and> generate_structure (tree_env site [Some ''[]''] [(''[]'', JList [])] [] None) tcurr_info
         [Log INFO (Procesando ''TCURR''),
          HttpGet ''https://leanx.eu/en/sap/table/tcurr.html'' None] =
       (Inr (JList []),
        [Log INFO (Procesando ''TCURR''),
         HttpGet ''https://leanx.eu/en/sap/table/tcurr.html'' None,
         Generate tcurr_info None])
   \<and> py_get (JList []) ''fields'' = Inl AttributeError
   \<and> process_one (tree_env site [Some ''[]''] [(''[]'', JList [])] [] None) ''TCURR'' [] [] =
       (Inr [],
        [Log INFO (Procesando ''TCURR''),
         HttpGet ''https://leanx.eu/en/sap/table/tcurr.html'' None,
         Generate tcurr_info None,
         Log ERROR (Error_generando ''TCURR'' AttributeError)])"
proof -
  let ?E = "tree_env site [Some ''not json''] [] [] None"
  let ?F = "tree_env site [Some ''[]''] [(''[]'', JList [])] [] None"
  let ?b1 = "[Log INFO (Procesando ''BAD''),
         HttpGet ''https://leanx.eu/en/sap/table/bad.html'' None,
         Log ERROR (Error_extrayendo (Exception ''unreadable''))]"
  let ?t1 = "[Log INFO (Procesando ''TCURR''),
         HttpGet ''https://leanx.eu/en/sap/table/tcurr.html'' None]"
  let ?t2 = "[Log INFO (Procesando ''TCURR''),
         HttpGet ''https://leanx.eu/en/sap/table/tcurr.html'' None,
         Generate tcurr_info None]"
  note T = batch_never_raises [of ?E "[]" "[]"]
  note U = batch_never_raises [of ?F "[]" "[]"]
  have h1: "http_get ?E (log INFO (Procesando ''BAD'') []) (url_of ''BAD'') = Inr faulty_page"
    by code_simp
  have d: "get_description_try ?E faulty_page = Inl AttributeError" by code_simp
  have f: "get_fields_try ?E faulty_page = (Inl (Exception ''unreadable''), fields_t bad_info)"
    by code_simp
  have u: "url_of ''BAD'' = ''https://leanx.eu/en/sap/table/bad.html''" by code_simp
  have g: "get_table_info ?E ''BAD'' (log INFO (Procesando ''BAD'') []) = (Inr (Some bad_info), ?b1)"
    using T [THEN conjunct2, THEN conjunct1, rule_format, of "''BAD''" "[]" faulty_page, OF h1]
    by (simp add: d f u log_def bad_info_def)
  have ne: "fields_t bad_info \<noteq> []" by (simp add: bad_info_def)
  have on: "\<exists>x ys. snd (process_one ?E ''BAD'' [] []) = ?b1 @ Generate bad_info x # ys"
    by (rule T [THEN conjunct2, THEN conjunct2, THEN conjunct1, rule_format,
          of "''BAD''" "[]" bad_info ?b1 "[]"]) (intro conjI g ne)
  have gen: "generator ?E ?b1 bad_info = Inr (Some ''not json'')" by code_simp
  have jl: "json_loads ?E ''not json'' = None" by code_simp
  have jl': "(case Some ''not json'' of None \<Rightarrow> None | Some x \<Rightarrow> json_loads ?E x) = None"
    using jl by simp
  have w: "\<And>h d. write_json ?E h output_file d = Written"
    by (simp add: tree_env_def)
  have fb: "process_one ?E ''BAD'' [] [] =
       (Inr [(''BAD'', fallback_structure bad_info)],
        ?b1 @ [Generate bad_info None, Log INFO (Estructura_generada ''BAD''),
               WriteJson output_file [(''BAD'', fallback_structure bad_info)] Written])"
    using T [THEN conjunct2, THEN conjunct2, THEN conjunct2, THEN conjunct1, rule_format,
          of "''BAD''" "[]" bad_info ?b1 "Some ''not json''" "[]", OF conjI [OF g conjI [OF ne conjI [OF gen jl']]]]
    by (simp add: Let_def w)
  have h3: "get_table_info ?F ''TCURR'' (log INFO (Procesando ''TCURR'') []) =
       (Inr (Some tcurr_info), ?t1)" by code_simp
  have h4: "fields_t tcurr_info \<noteq> []" by (simp add: tcurr_info_def)
  have h5: "generate_structure ?F tcurr_info ?t1 = (Inr (JList []), ?t2)" by code_simp
  have h6: "py_get (JList []) ''fields'' = Inl AttributeError" by simp
  have b: "process_one ?F ''TCURR'' [] [] =
       (Inr [], ?t2 @ [Log ERROR (Error_generando ''TCURR'' AttributeError)])"
    by (rule U [THEN conjunct2, THEN conjunct2, THEN conjunct2, THEN conjunct2, rule_format,
          of "''TCURR''" "[]" tcurr_info ?t1 "JList []" ?t2 AttributeError])
       (intro conjI h3 h4 h5 h6)
  show ?thesis
    by (intro conjI h1 d f g ne gen jl h3 h4 h5 h6) (use on fb b in simp_all)
qed

text \<open>
  C4 as first stated fails twice. When an identifier occurs twice, both steps store it and
  the document on disk has one entry. And when the write for a second identifier raises
  after the file was opened, that identifier fails with an error record and the document
  written for the first one is gone.
\<close>

theorem lost_entries_counterexample:
  "observe stored_of
     (snd (process_tables (tree_env site [None, None] [] [] None) [''TCURR'', ''TCURR''] []))
     = [''TCURR'', ''TCURR'']
   \<and> map_option length
       (persisted output_file
          (snd (process_tables (tree_env site [None, None] [] [] None) [''TCURR'', ''TCURR''] [])))
     = Some 1
   \<and> map_option (map fst)
       (persisted output_file
          (snd (process_tables
                  (tree_env site [None, None] [] [(1, Dump_failed (Exception ''encode''))] None)
                  [''TCURR''] [])))
     = Some [''TCURR'']
   \<and> observe error_of
       (snd (process_tables
               (tree_env site [None, None] [] [(1, Dump_failed (Exception ''encode''))] None)
               [''TCURR'', ''T001''] []))
     = [Exception ''encode'']
   \<and> persisted output_file
       (snd (process_tables
               (tree_env site [None, None] [] [(1, Dump_failed (Exception ''encode''))] None)
               [''TCURR'', ''T001''] []))
     = None"
  by code_simp

text \<open>
  C4 as amended, on a run whose first identifier is stored and whose second is not found,
  on a step that stores nothing after a document was written, and on a run whose second
  write raises after the file was opened.
\<close>

theorem snapshot_after_each_success_witness:
  "observe stored_of (snd (process_loop
       (tree_env site [None, None] [] [(1, Dump_failed (Exception ''encode''))] None)
       [''TCURR'', ''ZZ''] [] [])) = [''TCURR'']
   \<and> snd (snd (last (observe write_of (snd (process_loop
       (tree_env site [None, None] [] [(1, Dump_failed (Exception ''encode''))] None)
       [''TCURR'', ''ZZ''] [] []))))) = Written
   \<and> map_option (map fst) (persisted output_file (snd (process_loop
       (tree_env site [None, None] [] [(1, Dump_failed (Exception ''encode''))] None)
       [''TCURR'', ''ZZ''] [] []))) = Some [''TCURR'']
   \<and> observe stored_of (drop 1 (snd (process_loop
       (tree_env site [None, None] [] [(1, Dump_failed (Exception ''encode''))] None)
       [''ZZ''] [(''TCURR'', JNull)] [WriteJson output_file [(''TCURR'', JNull)] Written]))) = []
   \<and> fst (process_loop
       (tree_env site [None, None] [] [(1, Dump_failed (Exception ''encode''))] None)
       [''ZZ''] [(''TCURR'', JNull)] [WriteJson output_file [(''TCURR'', JNull)] Written])
       = Inr [(''TCURR'', JNull)]
   \<and> persisted output_file (snd (process_loop
       (tree_env site [None, None] [] [(1, Dump_failed (Exception ''encode''))] None)
       [''ZZ''] [(''TCURR'', JNull)] [WriteJson output_file [(''TCURR'', JNull)] Written]))
       = Some [(''TCURR'', JNull)]
   \<and> observe stored_of (snd (process_loop
       (tree_env site [None, None] [] [(1, Dump_failed (Exception ''encode''))] None)
       [''TCURR'', ''T001''] [] [])) = [''TCURR'', ''T001'']
   \<and> snd (snd (last (observe write_of (snd (process_loop
       (tree_env site [None, None] [] [(1, Dump_failed (Exception ''encode''))] None)
       [''TCURR'', ''T001''] [] []))))) = Dump_failed (Exception ''encode'')
   \<and> persisted output_file (snd (process_loop
       (tree_env site [None, None] [] [(1, Dump_failed (Exception ''encode''))] None)
       [''TCURR'', ''T001''] [] [])) = None
   \<and> map_sum id length (fst (process_loop
       (tree_env site [None, None] [] [(1, Dump_failed (Exception ''encode''))] None)
       [''TCURR'', ''T001''] [] [])) = Inr 2"
proof -
  let ?E = "tree_env site [None, None] [] [(1, Dump_failed (Exception ''encode''))] None"
  let ?S = "[(''TCURR'', JNull)]"
  let ?T = "[WriteJson output_file [(''TCURR'', JNull)] Written]"
  have h1: "observe stored_of (snd (process_loop ?E [''TCURR'', ''ZZ''] [] [])) = [''TCURR'']"
    by code_simp
  have h2: "snd (snd (last (observe write_of (snd (process_loop ?E [''TCURR'', ''ZZ''] [] [])))))
      = Written" by code_simp
  have k1: "map_sum id (map fst) (fst (process_loop ?E [''TCURR'', ''ZZ''] [] []))
      = Inr [''TCURR'']" by code_simp
  have h4: "observe stored_of (drop 1 (snd (process_loop ?E [''ZZ''] ?S ?T))) = []"
    by code_simp
  have pT: "persisted output_file ?T = Some ?S" by code_simp
  have h5: "observe stored_of (snd (process_loop ?E [''TCURR'', ''T001''] [] []))
      = [''TCURR'', ''T001'']" by code_simp
  have h6: "snd (snd (last (observe write_of (snd (process_loop ?E [''TCURR'', ''T001''] [] [])))))
      = Dump_failed (Exception ''encode'')" by code_simp
  have a: "map_option (map fst) (persisted output_file
       (snd (process_loop ?E [''TCURR'', ''ZZ''] [] []))) = Some [''TCURR'']"
    using snapshot_after_each_success [of ?E "[''TCURR'', ''ZZ'']" "[]" "[]"]
  proof (elim exE conjE)
    fix s' evs kvs
    assume r: "process_loop ?E [''TCURR'', ''ZZ''] [] [] = (Inr s', [] @ evs)"
      and p: "observe stored_of evs \<noteq> [] \<and> snd (snd (last (observe write_of evs))) = Written \<longrightarrow>
          persisted output_file ([] @ evs) = Some s'"
    from r h1 h2 have "observe stored_of evs \<noteq> [] \<and>
        snd (snd (last (observe write_of evs))) = Written" by simp
    with p have "persisted output_file ([] @ evs) = Some s'" by blast
    then show ?thesis using r k1 by simp
  qed
  have b: "fst (process_loop ?E [''ZZ''] ?S ?T) = Inr ?S \<and>
           persisted output_file (snd (process_loop ?E [''ZZ''] ?S ?T)) = Some ?S"
    using snapshot_after_each_success [of ?E "[''ZZ'']" ?S ?T]
  proof (elim exE conjE)
    fix s' evs kvs
    assume r: "process_loop ?E [''ZZ''] ?S ?T = (Inr s', ?T @ evs)"
      and n: "observe stored_of evs = [] \<longrightarrow>
          s' = ?S \<and> observe write_of evs = [] \<and>
          persisted output_file (?T @ evs) = persisted output_file ?T"
    from r h4 have "observe stored_of evs = []" by simp
    with n r pT show ?thesis by simp
  qed
  have c: "persisted output_file (snd (process_loop ?E [''TCURR'', ''T001''] [] [])) = None \<and>
      map_sum id length (fst (process_loop ?E [''TCURR'', ''T001''] [] [])) = Inr 2"
    using snapshot_after_each_success [of ?E "[''TCURR'', ''T001'']" "[]" "[]"]
  proof (elim exE conjE)
    fix s' evs kvs
    assume r: "process_loop ?E [''TCURR'', ''T001''] [] [] = (Inr s', [] @ evs)"
      and l: "\<forall>e. observe stored_of evs \<noteq> [] \<and>
              snd (snd (last (observe write_of evs))) = Dump_failed e \<longrightarrow>
          persisted output_file ([] @ evs) = None"
      and cn: "[] = [] \<and> distinct (observe stored_of evs) \<longrightarrow>
          length s' = length (observe stored_of evs)"
    from r h5 h6 have q: "observe stored_of evs = [''TCURR'', ''T001'']"
        "snd (snd (last (observe write_of evs))) = Dump_failed (Exception ''encode'')"
      by simp_all
    from l q have "persisted output_file ([] @ evs) = None" by simp
    moreover from cn q(1) have "length s' = 2" by simp
    ultimately show ?thesis using r by simp
  qed
  show ?thesis
    by (intro conjI h1 h2 h4 h5 h6) (use a b c in simp_all)
qed

text \<open>
  C5 on a site where the page of TCURR is not found, and on the site with that page
  where the generator raises.
\<close>

theorem smoke_failure_aborts_witness:
  "fst (get_table_info (tree_env [] [] [] [] None) test_table
          (log INFO (Obteniendo_prueba test_table)
             (log INFO Iniciando_prueba (log INFO Iniciando_analisis [])))) = Inr None
   \<and> fst (main (tree_env [] [] [] [] None) []) = Inr ()
   \<and> observe read_of (snd (main (tree_env [] [] [] [] None) [])) = []
   \<and> observe write_of (snd (main (tree_env [] [] [] [] None) [])) = []
   \<and> last (snd (main (tree_env [] [] [] [] None) [])) = Log ERROR No_se_pudo_obtener
   \<and> get_table_info (tree_env site [] [] [] None) test_table
          (log INFO (Obteniendo_prueba test_table)
             (log INFO Iniciando_prueba (log INFO Iniciando_analisis []))) =
       (Inr (Some tcurr_info),
        [Log INFO Iniciando_analisis, Log INFO Iniciando_prueba,
         Log INFO (Obteniendo_prueba ''TCURR''),
         HttpGet ''https://leanx.eu/en/sap/table/tcurr.html'' None])
   \<and> generator (tree_env site [] [] [] None)
         [Log INFO Iniciando_analisis, Log INFO Iniciando_prueba,
          Log INFO (Obteniendo_prueba ''TCURR''),
          HttpGet ''https://leanx.eu/en/sap/table/tcurr.html'' None] tcurr_info
       = Inl (Exception ''no answer'')
   \<and> observe read_of (snd (main (tree_env site [] [] [] None) [])) = []
   \<and> observe write_of (snd (main (tree_env site [] [] [] None) [])) = []
   \<and> last (snd (main (tree_env site [] [] [] None) []))
       = Log ERROR (Error_en_prueba (Exception ''no answer''))"
proof -
  let ?E = "tree_env [] [] [] [] None :: node env"
  let ?F = "tree_env site [] [] [] None"
  let ?t = "log INFO (Obteniendo_prueba test_table)
             (log INFO Iniciando_prueba (log INFO Iniciando_analisis []))"
  let ?t1 = "[Log INFO Iniciando_analisis, Log INFO Iniciando_prueba,
         Log INFO (Obteniendo_prueba ''TCURR''),
         HttpGet ''https://leanx.eu/en/sap/table/tcurr.html'' None]"
  obtain r t1 where g: "get_table_info ?E test_table ?t = (r, t1)"
    by (cases "get_table_info ?E test_table ?t")
  have f: "fst (get_table_info ?E test_table ?t) = Inr None" by code_simp
  with g have r: "r = Inr None \<or> (\<exists>ti e. r = Inr (Some ti) \<and> generator ?E t1 ti = Inl e)"
    by simp
  have l: "last (snd (main ?E [])) = Log ERROR No_se_pudo_obtener" by code_simp
  have a: "fst (main ?E []) = Inr () \<and> observe read_of (snd (main ?E [])) = [] \<and>
           observe write_of (snd (main ?E [])) = []"
    using smoke_failure_aborts [OF g r] by auto
  have g2: "get_table_info ?F test_table ?t = (Inr (Some tcurr_info), ?t1)" by code_simp
  have e2: "generator ?F ?t1 tcurr_info = Inl (Exception ''no answer'')" by code_simp
  have r2: "Inr (Some tcurr_info) = Inr None \<or>
     (\<exists>ti e. Inr (Some tcurr_info) = Inr (Some ti) \<and> generator ?F ?t1 ti = Inl e)"
    using e2 by blast
  have l2: "last (snd (main ?F [])) = Log ERROR (Error_en_prueba (Exception ''no answer''))"
    by code_simp
  have b: "observe read_of (snd (main ?F [])) = [] \<and> observe write_of (snd (main ?F [])) = []"
    using smoke_failure_aborts [OF g2 r2] by auto
  show ?thesis using f l a g2 e2 l2 b by simp
qed

text \<open>
  C6 on the page without a table, with a parser that raises in \<open>find\<close> and one that
  raises in \<open>find_all\<close>, on the page with an unreadable cell, and on the first page.
\<close>

theorem get_fields_never_raises_witness:
  "find (tree_env site [] [] [] None) bare_page ''table'' = Inr None
   \<and> get_fields (tree_env site [] [] [] None) bare_page [] = (Inr [], [])
   \<and> find broken_find tcurr_page ''table'' = Inl (Exception ''parser'')
   \<and> get_fields broken_find tcurr_page [] =
       (Inr [], [Log ERROR (Error_extrayendo (Exception ''parser''))])
   \<and> find broken_find_all tcurr_page ''table'' = Inr (Some (Elem ''table'' tcurr_rows))
   \<and> find_all broken_find_all (Elem ''table'' tcurr_rows) [''tr''] = Inl (Exception ''parser'')
   \<and> get_fields broken_find_all tcurr_page [] =
       (Inr [], [Log ERROR (Error_extrayendo (Exception ''parser''))])
   \<and> find (tree_env site [] [] [] None) faulty_page ''table'' = Inr (Some (Elem ''table'' faulty_rows))
   \<and> find_all (tree_env site [] [] [] None) (Elem ''table'' faulty_rows) [''tr''] = Inr faulty_rows
   \<and> drop 1 faulty_rows = [faulty_rows ! 1] @ faulty_rows ! 2 # [faulty_rows ! 3]
   \<and> fields_loop (tree_env site [] [] [] None) [faulty_rows ! 1] [] =
       (None, [\<lparr>name = ''KURST'', data_element = ''KURST'', type = ''CHAR'',
                 length_f = [], decimals = []\<rparr>])
   \<and> read_row (tree_env site [] [] [] None) (faulty_rows ! 2) = Inl (Exception ''unreadable'')
   \<and> get_fields (tree_env site [] [] [] None) faulty_page [] =
       (Inr [\<lparr>name = ''KURST'', data_element = ''KURST'', type = ''CHAR'',
               length_f = [], decimals = []\<rparr>],
        [Log ERROR (Error_extrayendo (Exception ''unreadable''))])
   \<and> find (tree_env site [] [] [] None) tcurr_page ''table'' = Inr (Some (Elem ''table'' tcurr_rows))
   \<and> find_all (tree_env site [] [] [] None) (Elem ''table'' tcurr_rows) [''tr''] = Inr tcurr_rows
   \<and> fields_loop (tree_env site [] [] [] None) (drop 1 tcurr_rows) [] =
       (None, fields_t tcurr_info)
   \<and> get_fields (tree_env site [] [] [] None) tcurr_page [] = (Inr (fields_t tcurr_info), [])"
proof -
  let ?E = "tree_env site [] [] [] None"
  have h1: "find ?E bare_page ''table'' = Inr None" by code_simp
  have h2: "find ?E faulty_page ''table'' = Inr (Some (Elem ''table'' faulty_rows))" by code_simp
  have h3: "find_all ?E (Elem ''table'' faulty_rows) [''tr''] = Inr faulty_rows" by code_simp
  have h4: "drop 1 faulty_rows = [faulty_rows ! 1] @ faulty_rows ! 2 # [faulty_rows ! 3]"
    by code_simp
  have h5: "fields_loop ?E [faulty_rows ! 1] [] =
       (None, [\<lparr>name = ''KURST'', data_element = ''KURST'', type = ''CHAR'',
                 length_f = [], decimals = []\<rparr>])" by code_simp
  have h5': "fst (fields_loop ?E [faulty_rows ! 1] []) = None" by (simp only: h5 fst_conv)
  have h6: "read_row ?E (faulty_rows ! 2) = Inl (Exception ''unreadable'')" by code_simp
  have f1: "find broken_find tcurr_page ''table'' = Inl (Exception ''parser'')" by code_simp
  have f2: "find broken_find_all tcurr_page ''table'' = Inr (Some (Elem ''table'' tcurr_rows))"
    by code_simp
  have f3: "find_all broken_find_all (Elem ''table'' tcurr_rows) [''tr''] = Inl (Exception ''parser'')"
    by code_simp
  have g1: "find ?E tcurr_page ''table'' = Inr (Some (Elem ''table'' tcurr_rows))" by code_simp
  have g2: "find_all ?E (Elem ''table'' tcurr_rows) [''tr''] = Inr tcurr_rows" by code_simp
  have g3: "fields_loop ?E (drop 1 tcurr_rows) [] = (None, fields_t tcurr_info)" by code_simp
  have g3': "fst (fields_loop ?E (drop 1 tcurr_rows) []) = None" by (simp only: g3 fst_conv)
  have a: "get_fields ?E bare_page [] = (Inr [], [])"
    by (rule get_fields_never_raises [of ?E bare_page "[]", THEN conjunct2, THEN conjunct1,
          rule_format]) (rule h1)
  have b: "get_fields broken_find tcurr_page [] =
       (Inr [], [] @ [Log ERROR (Error_extrayendo (Exception ''parser''))])"
    by (rule get_fields_never_raises [of broken_find tcurr_page "[]", THEN conjunct2,
          THEN conjunct2, THEN conjunct1, rule_format]) (rule f1)
  have c: "get_fields broken_find_all tcurr_page [] =
       (Inr [], [] @ [Log ERROR (Error_extrayendo (Exception ''parser''))])"
    by (rule get_fields_never_raises [of broken_find_all tcurr_page "[]", THEN conjunct2,
          THEN conjunct2, THEN conjunct2, THEN conjunct1, rule_format,
          of "Elem ''table'' tcurr_rows"]) (intro conjI f2 f3)
  have d: "get_fields ?E faulty_page [] =
       (Inr (snd (fields_loop ?E [faulty_rows ! 1] [])),
        [] @ [Log ERROR (Error_extrayendo (Exception ''unreadable''))])"
    by (rule get_fields_never_raises [of ?E faulty_page "[]", THEN conjunct2, THEN conjunct2,
          THEN conjunct2, THEN conjunct2, THEN conjunct1,
          rule_format, of "Elem ''table'' faulty_rows" faulty_rows "[faulty_rows ! 1]"
          "faulty_rows ! 2" "[faulty_rows ! 3]" "Exception ''unreadable''"])
       (intro conjI h2 h3 h4 h5' h6)
  have e: "get_fields ?E tcurr_page [] = (Inr (snd (fields_loop ?E (drop 1 tcurr_rows) [])), [])"
    by (rule get_fields_never_raises [of ?E tcurr_page "[]", THEN conjunct2, THEN conjunct2,
          THEN conjunct2, THEN conjunct2, THEN conjunct2,
          rule_format, of "Elem ''table'' tcurr_rows" tcurr_rows])
       (intro conjI g1 g2 g3')
  have b': "get_fields broken_find tcurr_page [] =
       (Inr [], [Log ERROR (Error_extrayendo (Exception ''parser''))])"
    using b by (simp only: append_Nil)
  have c': "get_fields broken_find_all tcurr_page [] =
       (Inr [], [Log ERROR (Error_extrayendo (Exception ''parser''))])"
    using c by (simp only: append_Nil)
  have d': "get_fields ?E faulty_page [] =
       (Inr [\<lparr>name = ''KURST'', data_element = ''KURST'', type = ''CHAR'',
               length_f = [], decimals = []\<rparr>],
        [Log ERROR (Error_extrayendo (Exception ''unreadable''))])"
    using d by (simp only: h5 snd_conv append_Nil)
  have e': "get_fields ?E tcurr_page [] = (Inr (fields_t tcurr_info), [])"
    using e by (simp only: g3 snd_conv)
  show ?thesis
    by (intro conjI h1 a f1 b' f2 f3 c' h2 h3 h4 h5 h6 d' g1 g2 g3 e')
qed

text \<open>C7 on the first page, whose data rows have 6, 4 and 2 cells.\<close>

theorem get_fields_rows_witness:
  "find (tree_env site [] [] [] None) tcurr_page ''table'' = Inr (Some (Elem ''table'' tcurr_rows))
   \<and> find_all (tree_env site [] [] [] None) (Elem ''table'' tcurr_rows) [''tr''] = Inr tcurr_rows
   \<and> map (\<lambda>r. find_all (tree_env site [] [] [] None) r [''td'', ''th'']) (drop 1 tcurr_rows) =
       map (\<lambda>r. Inr (tree_find_all r [''td'', ''th''])) (drop 1 tcurr_rows)
   \<and> map (\<lambda>r. map (text_of (tree_env site [] [] [] None)) (tree_find_all r [''td'', ''th'']))
         (drop 1 tcurr_rows) =
       map (\<lambda>r. map (\<lambda>c. Inr (projr (tree_text c))) (tree_find_all r [''td'', ''th'']))
         (drop 1 tcurr_rows)
   \<and> map (\<lambda>r. length (tree_find_all r [''td'', ''th''])) (drop 1 tcurr_rows) = [6, 4, 2]
   \<and> get_fields (tree_env site [] [] [] None) tcurr_page [] =
       (Inr [\<lparr>name = ''MANDT'', data_element = ''MANDT'', type = ''CLNT'',
               length_f = ''3'', decimals = ''0''\<rparr>,
             \<lparr>name = ''KURST'', data_element = ''KURST'', type = ''CHAR'',
               length_f = [], decimals = []\<rparr>], [])"
proof -
  let ?E = "tree_env site [] [] [] None"
  let ?cells = "\<lambda>r. tree_find_all r [''td'', ''th'']"
  let ?txt = "\<lambda>c. projr (tree_text c)"
  have h1: "find ?E tcurr_page ''table'' = Inr (Some (Elem ''table'' tcurr_rows))" by code_simp
  have h2: "find_all ?E (Elem ''table'' tcurr_rows) [''tr''] = Inr tcurr_rows" by code_simp
  have h3: "\<forall>r \<in> set (drop 1 tcurr_rows). find_all ?E r [''td'', ''th''] = Inr (?cells r)"
    by (simp add: tree_env_def)
  have h4: "\<forall>r \<in> set (drop 1 tcurr_rows). \<forall>c \<in> set (?cells r).
         text_of ?E c = Inr (?txt c)" by code_simp
  have h5: "map (\<lambda>r. length (?cells r)) (drop 1 tcurr_rows) = [6, 4, 2]" by code_simp
  have v: "map (\<lambda>r. field_of_cells (map ?txt (?cells r)))
             (filter (\<lambda>r. length (?cells r) \<ge> 4) (drop 1 tcurr_rows)) =
           [\<lparr>name = ''MANDT'', data_element = ''MANDT'', type = ''CLNT'',
               length_f = ''3'', decimals = ''0''\<rparr>,
             \<lparr>name = ''KURST'', data_element = ''KURST'', type = ''CHAR'',
               length_f = [], decimals = []\<rparr>]" by code_simp
  show ?thesis
    using h1 h2 h3 h4 h5 get_fields_rows [OF h1 h2 h3 h4, of "[]"] v by simp
qed

text \<open>
  C8 as first stated fails on a header line with a second column: it is not equal to
  \<open>table_name\<close>, and it is dropped.
\<close>

theorem header_prefix_counterexample:
  "clean_line ''table_name,description'' = ''table_name,description''
   \<and> ''table_name,description'' \<noteq> ''table_name''
   \<and> load_tables [''TCURR'', ''table_name,description''] [] = [''TCURR'']"
  by code_simp

text \<open>
  C8 as amended, without an input file and with an input file that holds a header and a
  blank line; and the list loaded from three lines.
\<close>

theorem input_list_loading_witness:
  "(\<forall>h. read_lines (tree_env site [None] [] [] None) h input_file = Inl FileNotFoundError)
   \<and> fst (main (tree_env site [None] [] [] None) []) = Inr ()
   \<and> observe visit_of (snd (main (tree_env site [None] [] [] None) [])) = []
   \<and> output_file \<notin> set (map fst (observe write_of (snd (main (tree_env site [None] [] [] None) []))))
   \<and> (\<forall>h. read_lines (tree_env site [None] [] [] (Some [''table_name'', ''  ''])) h input_file
           = Inr [''table_name'', ''  ''])
   \<and> load_tables [''table_name'', ''  ''] [] = []
   \<and> observe visit_of
        (snd (main (tree_env site [None] [] [] (Some [''table_name'', ''  ''])) [])) = []
   \<and> load_tables [[CHR 0x22, CHR ''T'', CHR ''0'', CHR 0x22, CHR '',''], '' TCURR '', ''table_name_2''] []
       = [''T0'', ''TCURR'']"
proof -
  let ?E = "tree_env site [None] [] [] None"
  let ?F = "tree_env site [None] [] [] (Some [''table_name'', ''  ''])"
  have h1: "\<forall>h. read_lines ?E h input_file = Inl FileNotFoundError" by (simp add: tree_env_def)
  have h2: "\<forall>h. read_lines ?F h input_file = Inr [''table_name'', ''  '']"
    by (simp add: tree_env_def)
  have h3: "load_tables [''table_name'', ''  ''] [] = []" by code_simp
  have l: "load_tables [[CHR 0x22, CHR ''T'', CHR ''0'', CHR 0x22, CHR '',''], '' TCURR '', ''table_name_2''] []
       = [''T0'', ''TCURR'']" by code_simp
  have a: "fst (main ?E []) = Inr () \<and> observe visit_of (snd (main ?E [])) = [] \<and>
     output_file \<notin> set (map fst (observe write_of (snd (main ?E []))))"
    using input_list_loading [of "[]" ?E "[]", THEN conjunct2, rule_format] h1
    by fastforce
  have b: "observe visit_of (snd (main ?F [])) = []"
    using input_list_loading [of "[]" ?F "[]", THEN conjunct2, rule_format] h2 h3
    by fastforce
  show ?thesis using h1 h2 h3 l a b by simp
qed

text \<open>C9 on the identifiers \<open>TCURR\<close> and \<open>tcurr\<close>.\<close>

theorem url_lowercased_key_verbatim_witness:
  "''TCURR'' \<noteq> ''tcurr'' \<and> py_lower ''TCURR'' = py_lower ''tcurr''
   \<and> observe stored_of
        (snd (process_tables (tree_env site [None, None] [] [] None) [''TCURR'', ''tcurr''] []))
       = [''TCURR'', ''tcurr'']
   \<and> observe fetch_of
        (snd (process_tables (tree_env site [None, None] [] [] None) [''TCURR'', ''tcurr''] []))
       = [''https://leanx.eu/en/sap/table/tcurr.html'', ''https://leanx.eu/en/sap/table/tcurr.html'']
   \<and> map_sum id (map fst)
        (fst (process_tables (tree_env site [None, None] [] [] None) [''TCURR'', ''tcurr''] []))
       = Inr [''TCURR'', ''tcurr'']"
proof -
  let ?E = "tree_env site [None, None] [] [] None"
  have h1: "''TCURR'' \<noteq> ''tcurr''" by simp
  have h2: "py_lower ''TCURR'' = py_lower ''tcurr''" by code_simp
  have h3: "observe stored_of (snd (process_tables ?E [''TCURR'', ''tcurr''] []))
       = [''TCURR'', ''tcurr'']" by code_simp
  have u: "BASE_URL @ py_lower ''TCURR'' @ ''.html'' = ''https://leanx.eu/en/sap/table/tcurr.html''"
    by code_simp
  from url_lowercased_key_verbatim [of ?E "[''TCURR'', ''tcurr'']" "[]"]
  show ?thesis
  proof (elim exE conjE)
    fix s' evs
    assume a: "process_tables ?E [''TCURR'', ''tcurr''] [] = (Inr s', [] @ evs)"
      and b: "\<forall>a b. [''TCURR'', ''tcurr''] = [a, b] \<and> a \<noteq> b \<and> py_lower a = py_lower b \<and>
               observe stored_of evs = [a, b] \<longrightarrow>
          observe fetch_of evs =
            [BASE_URL @ py_lower a @ ''.html'', BASE_URL @ py_lower a @ ''.html''] \<and>
          map fst s' = [a, b]"
    from a h3 have st: "observe stored_of evs = [''TCURR'', ''tcurr'']" by simp
    have "observe fetch_of evs =
            [BASE_URL @ py_lower ''TCURR'' @ ''.html'', BASE_URL @ py_lower ''TCURR'' @ ''.html'']
          \<and> map fst s' = [''TCURR'', ''tcurr'']"
      by (rule b [rule_format, of "''TCURR''" "''tcurr''"]) (intro conjI refl h1 h2 st)
    then have c: "observe fetch_of evs =
        [''https://leanx.eu/en/sap/table/tcurr.html'', ''https://leanx.eu/en/sap/table/tcurr.html'']"
      "map fst s' = [''TCURR'', ''tcurr'']"
      by (simp_all only: u)
    show ?thesis
      by (intro conjI h1 h2 h3) (simp_all add: a c)
  qed
qed


end
